theory Spec2Isabelle
  imports Complex_Main "HOL-Library.AList"
begin

section \<open>Python strings\<close>

text \<open>
  A Python \<open>str\<close> is modelled as a \<open>string\<close> whose characters are read as the code
  points 0..255.  \<open>is_space\<close> is \<open>str.isspace\<close> on that range (the set that
  \<open>str.strip()\<close>, \<open>int()\<close> and the regular expression class \<open>\s\<close> use),
  \<open>is_digit\<close> is the class \<open>\d\<close>.
\<close>

definition is_space :: "char \<Rightarrow> bool" where
  "is_space c = (c \<in> set [CHR 0x09, CHR 0x0A, CHR 0x0B, CHR 0x0C, CHR 0x0D,
                            CHR 0x1C, CHR 0x1D, CHR 0x1E, CHR 0x1F, CHR 0x20,
                            CHR 0x85, CHR 0xA0])"

definition is_digit :: "char \<Rightarrow> bool" where
  "is_digit c = (c \<in> set ''0123456789'')"

definition digit_val :: "char \<Rightarrow> nat" where
  "digit_val c = of_char c - 48"

definition strip :: "string \<Rightarrow> string" where
  "strip s = rev (dropWhile is_space (rev (dropWhile is_space s)))"

text \<open>\<open>s.split(d)\<close> for a one-character separator: always at least one piece.\<close>

fun split_on :: "char \<Rightarrow> string \<Rightarrow> string list" where
  "split_on d [] = [[]]"
| "split_on d (c # cs) =
     (if c = d then [] # split_on d cs
      else (case split_on d cs of [] \<Rightarrow> [[c]] | p # ps \<Rightarrow> (c # p) # ps))"

fun starts_with :: "string \<Rightarrow> string \<Rightarrow> string option" where
  "starts_with [] s = Some s"
| "starts_with (p # ps) [] = None"
| "starts_with (p # ps) (c # cs) = (if p = c then starts_with ps cs else None)"

text \<open>\<open>p in s\<close> for strings: \<open>p\<close> occurs in \<open>s\<close> as a contiguous substring.\<close>

fun contains_str :: "string \<Rightarrow> string \<Rightarrow> bool" where
  "contains_str p [] = (p = [])"
| "contains_str p (c # cs) = (starts_with p (c # cs) \<noteq> None \<or> contains_str p cs)"

text \<open>\<open>str.lower()\<close> on the code points 0..255.\<close>

definition lower_char :: "char \<Rightarrow> char" where
  "lower_char c =
     (let n = (of_char c :: nat)
      in if (65 \<le> n \<and> n \<le> 90) \<or> (192 \<le> n \<and> n \<le> 222 \<and> n \<noteq> 215)
         then char_of (n + 32) else c)"

definition lower :: "string \<Rightarrow> string" where
  "lower s = map lower_char s"

text \<open>
  \<open>int(s)\<close> on a string: surrounding whitespace is ignored, then an optional sign and
  decimal digits, where single underscores may separate digits.  Anything else raises
  \<open>ValueError\<close> (\<open>None\<close>).
\<close>

fun int_body :: "string \<Rightarrow> bool" where
  "int_body [] = False"
| "int_body [c] = is_digit c"
| "int_body (c # d # r) =
     (is_digit c \<and> (if d = CHR ''_'' then int_body r else int_body (d # r)))"

definition digits_value :: "string \<Rightarrow> nat" where
  "digits_value s = foldl (\<lambda>a c. 10 * a + digit_val c) 0 (filter is_digit s)"

definition py_int :: "string \<Rightarrow> int option" where
  "py_int s =
     (case strip s of
        [] \<Rightarrow> None
      | c # r \<Rightarrow>
          if c = CHR ''-'' then (if int_body r then Some (- int (digits_value r)) else None)
          else if c = CHR ''+'' then (if int_body r then Some (int (digits_value r)) else None)
          else if int_body (c # r) then Some (int (digits_value (c # r))) else None)"

text \<open>
  \<open>float(s)\<close> for the strings that reach it in \<open>parse_variable_condition\<close>: the
  pattern lets only digits, commas, dots and whitespace through, so the accepted forms are
  the plain decimals \<open>12.5\<close>, \<open>12.\<close> and \<open>.5\<close> (and digit strings).  A float is
  modelled by the rational number its literal denotes.
\<close>

definition py_float :: "string \<Rightarrow> rat option" where
  "py_float s =
     (let t = strip s;
          ip = takeWhile (\<lambda>c. c \<noteq> CHR ''.'') t;
          r = dropWhile (\<lambda>c. c \<noteq> CHR ''.'') t
      in case r of
           [] \<Rightarrow> (if ip \<noteq> [] \<and> list_all is_digit ip then Some (of_nat (digits_value ip)) else None)
         | dot # fp \<Rightarrow>
             if list_all is_digit ip \<and> list_all is_digit fp \<and> (ip \<noteq> [] \<or> fp \<noteq> [])
             then Some (of_nat (digits_value ip) + of_nat (digits_value fp) / 10 ^ length fp)
             else None)"

section \<open>Errors\<close>

text \<open>
  Every \<open>raise\<close> of the source is a constructor.  The wrappers keep the name that the
  source puts into the message and the wrapped cause.
\<close>

datatype error =
    InvalidLiteral string
  | VariableNotInData string
  | UnknownOperator string
  | NoValidConditions string
  | VariableNotInDatamap string
  | ComparisonTypeError
  | ListOperand
  | RecodeLineError string string error
  | CouldNotParseVariable string
  | NameError string
  | PandasEvalError
  | NumericRecodeError string error
  | SortTypeError
  | WeightConditionError string error
  | RecodeError string error
  | FilterNotFound string
  | FilterError string error
  | InvalidClassChars string
  | ClassParseFailed string
  | ClassBinError string string
  | ClassNotFound string
  | ClassError string error
  | AmbiguousTruthValue
  | KeyError string

section \<open>Condition language: parsing (formula\_parser.py)\<close>

datatype pvalue = VInt int | VFloat rat | VStr string

datatype cond_value = Scalar pvalue | Codes "int list"

type_synonym condition = "string \<times> string \<times> cond_value"

text \<open>
  \<open>VAR_CONDITION_PATTERN\<close> is
  \<^verbatim>\<open>\["([^"]+)"(C|NC|CO|NCO|=|!=|>=|<=|>|<)([\d,\s\.]+)\]\<close>.
  \<open>match_var_condition s\<close> matches it at the start of \<open>s\<close> and returns the three groups
  and the text after the match.  The alternatives of the operator group are tried in the
  order of the pattern, each followed by the rest of the pattern (backtracking).
\<close>

definition operators :: "string list" where
  "operators = [''C'', ''NC'', ''CO'', ''NCO'', ''='', ''!='', ''>='', ''<='', ''>'', ''<'']"

definition is_value_char :: "char \<Rightarrow> bool" where
  "is_value_char c = (is_digit c \<or> c = CHR '','' \<or> is_space c \<or> c = CHR ''.'')"

definition match_value :: "string \<Rightarrow> (string \<times> string) option" where
  "match_value s =
     (let v = takeWhile is_value_char s; r = dropWhile is_value_char s
      in if v = [] then None
         else (case r of [] \<Rightarrow> None
               | c # r' \<Rightarrow> if c = CHR '']'' then Some (v, r') else None))"

fun match_ops :: "string list \<Rightarrow> string \<Rightarrow> (string \<times> string \<times> string) option" where
  "match_ops [] s = None"
| "match_ops (opr # oprs) s =
     (case starts_with opr s of
        None \<Rightarrow> match_ops oprs s
      | Some r \<Rightarrow>
          (case match_value r of
             None \<Rightarrow> match_ops oprs s
           | Some (v, r') \<Rightarrow> Some (opr, v, r')))"

definition match_var_condition :: "string \<Rightarrow> (string \<times> string \<times> string \<times> string) option" where
  "match_var_condition s =
     (case s of
        a # b # s1 \<Rightarrow>
          if a = CHR ''['' \<and> b = CHR 0x22 then
            (let name = takeWhile (\<lambda>c. c \<noteq> CHR 0x22) s1;
                 r = dropWhile (\<lambda>c. c \<noteq> CHR 0x22) s1
             in if name = [] then None
                else (case r of
                        [] \<Rightarrow> None
                      | q # r2 \<Rightarrow>
                          (case match_ops operators r2 of
                             None \<Rightarrow> None
                           | Some (opr, v, r') \<Rightarrow> Some (name, opr, v, r'))))
          else None
      | _ \<Rightarrow> None)"

lemma starts_with_length: "starts_with p s = Some r \<Longrightarrow> length r \<le> length s"
  by (induction p s rule: starts_with.induct) (auto split: if_splits)

lemma match_value_length: "match_value s = Some (v, r) \<Longrightarrow> length r < length s"
proof -
  assume a: "match_value s = Some (v, r)"
  have "length (dropWhile is_value_char s) \<le> length s"
    by (rule length_dropWhile_le)
  with a show ?thesis
    by (auto simp: match_value_def Let_def split: if_splits list.splits)
qed

lemma match_ops_length: "match_ops oprs s = Some (opr, v, r) \<Longrightarrow> length r < length s"
proof (induction oprs)
  case Nil
  then show ?case by simp
next
  case (Cons a oprs)
  then show ?case
    by (auto split: option.splits dest!: starts_with_length match_value_length)
qed

lemma match_var_condition_length:
  assumes "match_var_condition s = Some (n, opr, v, r)"
  shows "length r < length s"
proof -
  obtain a b s1 where s: "s = a # b # s1"
    using assms by (auto simp: match_var_condition_def split: list.splits)
  let ?r = "dropWhile (\<lambda>c. c \<noteq> CHR 0x22) s1"
  obtain q r2 where r: "?r = q # r2" and m: "match_ops operators r2 = Some (opr, v, r)"
    using assms s
    by (auto simp: match_var_condition_def Let_def split: if_splits list.splits option.splits)
  have "length ?r \<le> length s1" by (rule length_dropWhile_le)
  with r have "length r2 < length s1" by simp
  moreover have "length r < length r2" using m by (rule match_ops_length)
  ultimately show ?thesis using s by simp
qed

text \<open>
  \<open>VAR_CONDITION_PATTERN.finditer(formula)\<close>: the matches from left to right, each search
  resuming where the previous match ended.
\<close>

function finditer_var_condition :: "string \<Rightarrow> (string \<times> string \<times> string) list" where
  "finditer_var_condition [] = []"
| "finditer_var_condition (c # cs) =
     (case match_var_condition (c # cs) of
        None \<Rightarrow> finditer_var_condition cs
      | Some (n, opr, v, r) \<Rightarrow> (n, opr, v) # finditer_var_condition r)"
  by pat_completeness auto
termination
  by (relation "measure length") (auto dest: match_var_condition_length)

text \<open>
  The value of one match, as the loop body of \<open>parse_variable_condition\<close> computes it.
  For a comparison operator the value text is stripped and read as an \<open>int\<close>, else as
  a \<open>float\<close>, else kept as text; the test for surrounding double quotes never holds,
  since the pattern admits no quote in the value.
\<close>

fun parse_codes :: "string list \<Rightarrow> error + int list" where
  "parse_codes [] = Inr []"
| "parse_codes (v # vs) =
     (case py_int (strip v) of
        None \<Rightarrow> Inl (InvalidLiteral (strip v))
      | Some n \<Rightarrow> (case parse_codes vs of Inl e \<Rightarrow> Inl e | Inr ns \<Rightarrow> Inr (n # ns)))"

definition parse_scalar :: "string \<Rightarrow> pvalue" where
  "parse_scalar value_str =
     (let s = strip value_str
      in case py_int s of
           Some n \<Rightarrow> VInt n
         | None \<Rightarrow> (case py_float s of Some r \<Rightarrow> VFloat r | None \<Rightarrow> VStr s))"

definition parse_value :: "string \<Rightarrow> string \<Rightarrow> error + cond_value" where
  "parse_value opr value_str =
     (if opr \<in> set [''C'', ''NC'', ''CO'', ''NCO'']
      then (case parse_codes (split_on CHR '','' value_str) of
              Inl e \<Rightarrow> Inl e | Inr ns \<Rightarrow> Inr (Codes ns))
      else Inr (Scalar (parse_scalar value_str)))"

fun parse_matches :: "(string \<times> string \<times> string) list \<Rightarrow> error + condition list" where
  "parse_matches [] = Inr []"
| "parse_matches ((n, opr, v) # ms) =
     (case parse_value opr v of
        Inl e \<Rightarrow> Inl e
      | Inr x \<Rightarrow> (case parse_matches ms of Inl e \<Rightarrow> Inl e | Inr cs \<Rightarrow> Inr ((n, opr, x) # cs)))"

definition parse_variable_condition :: "string \<Rightarrow> error + condition list" where
  "parse_variable_condition formula = parse_matches (finditer_var_condition formula)"

section \<open>Data model (core.py)\<close>

text \<open>
  A cell of the dataset is null (\<open>NaN\<close>/\<open>None\<close>), a number or a text.  A
  \<open>DataFrame\<close> is its number of rows and its columns in order; every column has
  \<open>nrows\<close> cells and the column names are distinct.  Assigning a column replaces the
  column of that name in place or appends a new one, which is \<open>AList.update\<close>.
\<close>

datatype cell = Null | Num rat | Str string

record dataframe =
  nrows :: nat
  columns :: "(string \<times> cell list) list"

definition has_column :: "dataframe \<Rightarrow> string \<Rightarrow> bool" where
  "has_column df v = (v \<in> fst ` set (columns df))"

definition get_column :: "dataframe \<Rightarrow> string \<Rightarrow> cell list" where
  "get_column df v = (case map_of (columns df) v of Some col \<Rightarrow> col | None \<Rightarrow> [])"

definition set_column :: "dataframe \<Rightarrow> string \<Rightarrow> cell list \<Rightarrow> dataframe" where
  "set_column df v col = df\<lparr>columns := AList.update v col (columns df)\<rparr>"

datatype QuestionType = QUALI_UNIQUE | QUALI_MULTI | NUMERIC | OPEN

record Question =
  q_name :: string
  q_qtype :: QuestionType
  q_title :: string
  q_codes :: "(int \<times> string) list"

text \<open>\<open>DataMap.questions\<close> is a dict from names to questions, kept in insertion order.\<close>

type_synonym DataMap = "(string \<times> Question) list"

definition add_question :: "DataMap \<Rightarrow> Question \<Rightarrow> DataMap" where
  "add_question dm q = AList.update (q_name q) q dm"

definition get_question :: "DataMap \<Rightarrow> string \<Rightarrow> Question option" where
  "get_question dm n = map_of dm n"

record Filter =
  f_name :: string
  f_formula :: string
  f_with_na :: bool

record Class =
  c_name :: string
  c_bins :: "(string \<times> string) list"
  c_option_na :: bool

section \<open>Condition language: evaluation (formula\_parser.py)\<close>

text \<open>Running a fallible function over a column stops at the first exception.\<close>

fun map_err :: "('a \<Rightarrow> error + 'b) \<Rightarrow> 'a list \<Rightarrow> error + 'b list" where
  "map_err f [] = Inr []"
| "map_err f (x # xs) =
     (case f x of
        Inl e \<Rightarrow> Inl e
      | Inr y \<Rightarrow> (case map_err f xs of Inl e \<Rightarrow> Inl e | Inr ys \<Rightarrow> Inr (y # ys)))"

text \<open>
  \<open>[int(c.strip()) for c in cell_value.split(',') if c.strip()]\<close>, and \<open>int(x)\<close> of a
  number (truncation towards zero).
\<close>

definition cell_codes_str :: "string \<Rightarrow> error + int list" where
  "cell_codes_str s =
     map_err (\<lambda>c. case py_int (strip c) of None \<Rightarrow> Inl (InvalidLiteral (strip c)) | Some n \<Rightarrow> Inr n)
       (filter (\<lambda>c. strip c \<noteq> []) (split_on CHR '','' s))"

definition py_trunc :: "rat \<Rightarrow> int" where
  "py_trunc r = (if 0 \<le> r then \<lfloor>r\<rfloor> else \<lceil>r\<rceil>)"

text \<open>Python's \<open>==\<close> between a condition value and an integer code.\<close>

fun code_eq :: "pvalue \<Rightarrow> int \<Rightarrow> bool" where
  "code_eq (VInt n) c = (n = c)"
| "code_eq (VFloat r) c = (r = of_int c)"
| "code_eq (VStr s) c = False"

text \<open>\<open>if not isinstance(value, list): value = [value]\<close>\<close>

fun value_list :: "cond_value \<Rightarrow> pvalue list" where
  "value_list (Codes ns) = map VInt ns"
| "value_list (Scalar v) = [v]"

definition contains_check :: "string \<Rightarrow> pvalue list \<Rightarrow> cell \<Rightarrow> error + bool" where
  "contains_check opr vals cell_value =
     (case cell_value of
        Null \<Rightarrow> Inr False
      | _ \<Rightarrow>
        (case (case cell_value of Str s \<Rightarrow> cell_codes_str s | Num r \<Rightarrow> Inr [py_trunc r] | Null \<Rightarrow> Inr []) of
           Inl e \<Rightarrow> Inl e
         | Inr codes \<Rightarrow>
             Inr (if opr = ''C'' then (\<exists>v \<in> set vals. \<exists>c \<in> set codes. code_eq v c)
                  else if opr = ''NC'' then \<not> (\<exists>v \<in> set vals. \<exists>c \<in> set codes. code_eq v c)
                  else if opr = ''CO'' then
                    ((\<forall>c \<in> set codes. \<exists>v \<in> set vals. code_eq v c) \<and>
                     (\<forall>v \<in> set vals. \<exists>c \<in> set codes. code_eq v c))
                  else if opr = ''NCO'' then
                    \<not> ((\<forall>c \<in> set codes. \<exists>v \<in> set vals. code_eq v c) \<and>
                       (\<forall>v \<in> set vals. \<exists>c \<in> set codes. code_eq v c))
                  else False)))"

text \<open>
  The comparison operators of a pandas column against a scalar, cell by cell.  A null cell
  compares unequal to everything: \<open>==\<close>, \<open><\<close>, \<open>>\<close>, \<open><=\<close>, \<open>>=\<close> give
  \<open>False\<close> there and \<open>!=\<close> gives \<open>True\<close>.  Numbers compare by value, texts
  by code points; a number and a text are unequal, and ordering them raises \<open>TypeError\<close>.
  This is the behaviour of \<open>float64\<close> and \<open>object\<close> columns, cell by cell.  On a
  nullable \<open>Int64\<close> column, such as the result column of a \<open>QualiUniqueRecode\<close>, a
  comparison gives \<open><NA>\<close> on a null cell, for \<open>!=\<close> as well; the one \<open>Null\<close>
  of the model does not tell the two kinds of column apart.
\<close>

fun str_less :: "string \<Rightarrow> string \<Rightarrow> bool" where
  "str_less [] [] = False"
| "str_less [] (y # ys) = True"
| "str_less (x # xs) [] = False"
| "str_less (x # xs) (y # ys) =
     ((of_char x :: nat) < of_char y \<or> (x = y \<and> str_less xs ys))"

definition compare_num :: "string \<Rightarrow> rat \<Rightarrow> rat \<Rightarrow> bool" where
  "compare_num opr a b =
     (if opr = ''='' then a = b
      else if opr = ''!='' then a \<noteq> b
      else if opr = ''>'' then a > b
      else if opr = ''<'' then a < b
      else if opr = ''>='' then a \<ge> b
      else a \<le> b)"

definition compare_str :: "string \<Rightarrow> string \<Rightarrow> string \<Rightarrow> bool" where
  "compare_str opr a b =
     (if opr = ''='' then a = b
      else if opr = ''!='' then a \<noteq> b
      else if opr = ''>'' then str_less b a
      else if opr = ''<'' then str_less a b
      else if opr = ''>='' then \<not> str_less a b
      else \<not> str_less b a)"

definition compare_mixed :: "string \<Rightarrow> error + bool" where
  "compare_mixed opr =
     (if opr = ''='' then Inr False
      else if opr = ''!='' then Inr True
      else Inl ComparisonTypeError)"

fun compare_cell :: "string \<Rightarrow> pvalue \<Rightarrow> cell \<Rightarrow> error + bool" where
  "compare_cell opr v Null = Inr (opr = ''!='')"
| "compare_cell opr (VInt n) (Num a) = Inr (compare_num opr a (of_int n))"
| "compare_cell opr (VFloat r) (Num a) = Inr (compare_num opr a r)"
| "compare_cell opr (VStr s) (Num a) = compare_mixed opr"
| "compare_cell opr (VStr s) (Str t) = Inr (compare_str opr t s)"
| "compare_cell opr (VInt n) (Str t) = compare_mixed opr"
| "compare_cell opr (VFloat r) (Str t) = compare_mixed opr"

text \<open>
  \<open>evaluate_condition\<close>.  The parser gives a code list to \<open>C\<close>, \<open>NC\<close>, \<open>CO\<close>,
  \<open>NCO\<close> and a scalar to the comparison operators; a list handed to a comparison
  operator is rejected (\<open>ListOperand\<close>).
\<close>

definition evaluate_condition ::
    "dataframe \<Rightarrow> string \<Rightarrow> string \<Rightarrow> cond_value \<Rightarrow> error + bool list" where
  "evaluate_condition df var_name opr val =
     (if \<not> has_column df var_name then Inl (VariableNotInData var_name)
      else let col = get_column df var_name
           in if opr \<in> set [''C'', ''NC'', ''CO'', ''NCO'']
              then map_err (contains_check opr (value_list val)) col
              else if opr \<in> set [''='', ''!='', ''>'', ''<'', ''>='', ''<='']
              then (case val of
                      Scalar v \<Rightarrow> map_err (compare_cell opr v) col
                    | Codes ns \<Rightarrow> Inl ListOperand)
              else Inl (UnknownOperator opr))"

text \<open>
  \<open>evaluate_formula\<close>: the first condition gives the start vector, every further one
  is joined to it with \<open>|\<close> when \<open>' or ' in formula.lower()\<close>, with \<open>&\<close>
  otherwise.
\<close>

definition eval_one :: "dataframe \<Rightarrow> DataMap \<Rightarrow> condition \<Rightarrow> error + bool list" where
  "eval_one df datamap c =
     (case c of (var_name, opr, val) \<Rightarrow>
        (case get_question datamap var_name of
           None \<Rightarrow> Inl (VariableNotInDatamap var_name)
         | Some question \<Rightarrow> evaluate_condition df var_name opr val))"

definition has_or :: "string \<Rightarrow> bool" where
  "has_or formula = contains_str '' or '' (lower formula)"

fun combine_conditions ::
    "dataframe \<Rightarrow> DataMap \<Rightarrow> bool \<Rightarrow> bool list \<Rightarrow> condition list \<Rightarrow> error + bool list" where
  "combine_conditions df datamap use_or result [] = Inr result"
| "combine_conditions df datamap use_or result (c # cs) =
     (case eval_one df datamap c of
        Inl e \<Rightarrow> Inl e
      | Inr cond \<Rightarrow>
          combine_conditions df datamap use_or
            (if use_or then map2 (\<or>) result cond else map2 (\<and>) result cond) cs)"

definition evaluate_formula :: "dataframe \<Rightarrow> string \<Rightarrow> DataMap \<Rightarrow> error + bool list" where
  "evaluate_formula df formula datamap =
     (case parse_variable_condition formula of
        Inl e \<Rightarrow> Inl e
      | Inr conditions \<Rightarrow>
          (case conditions of
             [] \<Rightarrow> Inl (NoValidConditions formula)
           | c # rest \<Rightarrow>
               (case eval_one df datamap c of
                  Inl e \<Rightarrow> Inl e
                | Inr result \<Rightarrow> combine_conditions df datamap (has_or formula) result rest)))"

section \<open>Filter engine (engines.py)\<close>

text \<open>\<open>FilterEngine.filters\<close> is a dict from filter names to filters.\<close>

type_synonym FilterEngine = "(string \<times> Filter) list"

definition add_filter :: "FilterEngine \<Rightarrow> Filter \<Rightarrow> FilterEngine" where
  "add_filter fe f = AList.update (f_name f) f fe"

definition apply_filter ::
    "FilterEngine \<Rightarrow> dataframe \<Rightarrow> string \<Rightarrow> DataMap \<Rightarrow> error + bool list" where
  "apply_filter fe df filter_name datamap =
     (case map_of fe filter_name of
        None \<Rightarrow> Inl (FilterNotFound filter_name)
      | Some filter_obj \<Rightarrow>
          (case evaluate_formula df (f_formula filter_obj) datamap of
             Inl e \<Rightarrow> Inl (FilterError filter_name e)
           | Inr m \<Rightarrow> Inr m))"

text \<open>
  \<open>FilterEngine.validate\<close>: one entry \<open>(name, e)\<close> for each message
  \<open>Filter '{name}': {e}\<close> appended to \<open>errors\<close>.
\<close>

fun filter_validate :: "FilterEngine \<Rightarrow> DataMap \<Rightarrow> (string \<times> error) list" where
  "filter_validate [] datamap = []"
| "filter_validate ((name, filter_obj) # fs) datamap =
     (case parse_variable_condition (f_formula filter_obj) of
        Inl e \<Rightarrow> (name, e) # filter_validate fs datamap
      | Inr conditions \<Rightarrow> filter_validate fs datamap)"

section \<open>Class binning (formula\_parser.py, engines.py)\<close>

text \<open>
  Facilities of the Python runtime and of pandas that the source calls but does not
  define are parameters of the model:
  \<^item> \<open>py_eval\<close> stands for \<open>eval("lambda x: " + safe_formula, ...)\<close> in
    \<open>parse_class_formula\<close>: \<open>None\<close> when \<open>eval\<close> raises, otherwise the predicate,
    which itself gives \<open>None\<close> on a cell where calling it raises;
  \<open>re_bound\<close> and \<open>pd_eval\<close> are used by \<open>NumericRecode\<close> below.
  Every theorem holds for all values of these parameters.
\<close>

record py_env =
  py_eval :: "string \<Rightarrow> (cell \<Rightarrow> bool option) option"
  re_bound :: bool
  pd_eval :: "string \<Rightarrow> dataframe \<Rightarrow> cell list option"

definition allowed_chars :: "char set" where
  "allowed_chars = set ''x0123456789 ()<>=!and.or''"

definition parse_class_formula ::
    "py_env \<Rightarrow> string \<Rightarrow> error + (cell \<Rightarrow> bool option) option" where
  "parse_class_formula env formula =
     (if CHR ''X'' \<notin> set formula then Inr None
      else let safe_formula = map (\<lambda>c. if c = CHR ''X'' then CHR ''x'' else c) formula
           in if \<not> (\<forall>c \<in> set (lower safe_formula). c \<in> allowed_chars)
              then Inl (InvalidClassChars formula)
              else (case py_eval env safe_formula of
                      None \<Rightarrow> Inl (ClassParseFailed formula)
                    | Some func \<Rightarrow> Inr (Some func)))"

text \<open>
  One bin of \<open>apply_class\<close>: \<open>series[mask].apply(func)\<close> calls \<open>func\<close> on the
  non-null cells only; \<open>result.loc[mask & matches] = label\<close> then overwrites the
  result wherever the cell is non-null and \<open>func\<close> holds.
\<close>

definition bin_matches :: "(cell \<Rightarrow> bool option) \<Rightarrow> cell list \<Rightarrow> bool list option" where
  "bin_matches func series =
     those (map (\<lambda>c. if c = Null then Some False else func c) series)"

definition assign_where :: "bool list \<Rightarrow> 'a \<Rightarrow> 'a list \<Rightarrow> 'a list" where
  "assign_where m v result = map2 (\<lambda>b r. if b then v else r) m result"

fun apply_class_bins ::
    "py_env \<Rightarrow> cell list \<Rightarrow> string option list \<Rightarrow> (string \<times> string) list
     \<Rightarrow> error + string option list" where
  "apply_class_bins env series result [] = Inr result"
| "apply_class_bins env series result ((formula, label) # bins) =
     (case parse_class_formula env formula of
        Inl e \<Rightarrow> Inl e
      | Inr None \<Rightarrow> apply_class_bins env series result bins
      | Inr (Some func) \<Rightarrow>
          (case bin_matches func series of
             None \<Rightarrow> Inl (ClassBinError label formula)
           | Some matches \<Rightarrow>
               apply_class_bins env series (assign_where matches (Some label) result) bins))"

definition apply_class ::
    "py_env \<Rightarrow> cell list \<Rightarrow> (string \<times> string) list \<Rightarrow> error + string option list" where
  "apply_class env series class_bins =
     apply_class_bins env series (replicate (length series) None) class_bins"

text \<open>\<open>ClassEngine.classes\<close> is a dict from class names to classes.\<close>

type_synonym ClassEngine = "(string \<times> Class) list"

definition add_class :: "ClassEngine \<Rightarrow> Class \<Rightarrow> ClassEngine" where
  "add_class ce c = AList.update (c_name c) c ce"

definition engine_apply_class ::
    "py_env \<Rightarrow> ClassEngine \<Rightarrow> cell list \<Rightarrow> string \<Rightarrow> error + string option list" where
  "engine_apply_class env ce series class_name =
     (case map_of ce class_name of
        None \<Rightarrow> Inl (ClassNotFound class_name)
      | Some class_obj \<Rightarrow>
          (case apply_class env series (c_bins class_obj) of
             Inl e \<Rightarrow> Inl (ClassError class_name e)
           | Inr r \<Rightarrow> Inr r))"

section \<open>Recode engine (recode\_engine.py)\<close>

datatype RecodeType =
  RT_QUALI_UNIQUE | RT_QUALI_MULTI | RT_NUMERIC | RT_NUMBER_OF_ANSWERS | RT_COMBINATION
  | RT_EXCEL_FORMULA | RT_WEIGHT | RT_QUALI_MULTI_INI

record recode_base =
  r_name :: string
  r_rtype :: RecodeType
  r_title :: string
  r_formula :: string
  r_option_na :: bool

text \<open>
  The subclasses of \<open>Recode\<close> with their own fields: the code table, the weight table
  (a dict from condition to weight) and the sub-total table (a dict from sub-total code to
  member codes).
\<close>

datatype Recode =
    QualiUniqueRecode recode_base "(int \<times> string) list"
  | QualiMultipleRecode recode_base "(int \<times> string) list"
  | NumericRecode recode_base
  | NumberOfAnswersRecode recode_base
  | CombinationRecode recode_base
  | WeightRecode recode_base "(string \<times> rat) list"
  | QualiMultiINIRecode recode_base "(int \<times> string) list" "(int \<times> int list) list"

fun base :: "Recode \<Rightarrow> recode_base" where
  "base (QualiUniqueRecode b codes) = b"
| "base (QualiMultipleRecode b codes) = b"
| "base (NumericRecode b) = b"
| "base (NumberOfAnswersRecode b) = b"
| "base (CombinationRecode b) = b"
| "base (WeightRecode b weights) = b"
| "base (QualiMultiINIRecode b codes subtotals) = b"

subsection \<open>Formula lines of the choice recodes\<close>

text \<open>\<open>[line.strip() for line in self.formula.split('\n') if line.strip()]\<close>\<close>

definition formula_lines :: "string \<Rightarrow> string list" where
  "formula_lines formula =
     map strip (filter (\<lambda>line. strip line \<noteq> []) (split_on CHR 0x0A formula))"

definition has_colon :: "string \<Rightarrow> bool" where
  "has_colon line = (CHR '':'' \<in> set line)"

text \<open>\<open>code_str, condition = line.split(':', 1)\<close>, for a line that has a colon.\<close>

definition split_colon :: "string \<Rightarrow> string \<times> string" where
  "split_colon line =
     (takeWhile (\<lambda>c. c \<noteq> CHR '':'') line, drop 1 (dropWhile (\<lambda>c. c \<noteq> CHR '':'') line))"

text \<open>
  The loop of \<open>QualiUniqueRecode.calculate\<close> over the lines, with the result column as
  state.  \<open>int(code_str.strip())\<close> stands outside the \<open>try\<close>, so its
  \<open>ValueError\<close> is not wrapped.  Codes are unbounded integers here; the \<open>Int64\<close>
  result column of the code holds the codes below \<open>2^63\<close> and the assignment raises for
  a larger one.
\<close>

fun quali_unique_lines ::
    "string \<Rightarrow> dataframe \<Rightarrow> DataMap \<Rightarrow> int option list \<Rightarrow> string list
     \<Rightarrow> error + int option list" where
  "quali_unique_lines name df datamap result [] = Inr result"
| "quali_unique_lines name df datamap result (line # lines) =
     (if has_colon line then
        (case py_int (strip (fst (split_colon line))) of
           None \<Rightarrow> Inl (InvalidLiteral (strip (fst (split_colon line))))
         | Some code \<Rightarrow>
             (case evaluate_formula df (strip (snd (split_colon line))) datamap of
                Inl e \<Rightarrow> Inl (RecodeLineError name line e)
              | Inr m \<Rightarrow>
                  quali_unique_lines name df datamap (assign_where m (Some code) result) lines))
      else quali_unique_lines name df datamap result lines)"

definition quali_unique_calculate ::
    "recode_base \<Rightarrow> dataframe \<Rightarrow> DataMap \<Rightarrow> error + int option list" where
  "quali_unique_calculate b df datamap =
     quali_unique_lines (r_name b) df datamap (replicate (nrows df) None)
       (formula_lines (r_formula b))"

text \<open>\<open>str(n)\<close> for an integer and \<open>sep.join(...)\<close>.\<close>

fun str_nat :: "nat \<Rightarrow> string" where
  "str_nat n = (if n < 10 then [char_of (48 + n)] else str_nat (n div 10) @ [char_of (48 + n mod 10)])"

definition str_int :: "int \<Rightarrow> string" where
  "str_int i = (if i < 0 then CHR ''-'' # str_nat (nat (- i)) else str_nat (nat i))"

fun join :: "string \<Rightarrow> string list \<Rightarrow> string" where
  "join sep [] = []"
| "join sep [x] = x"
| "join sep (x # y # ys) = x @ sep @ join sep (y # ys)"

definition add_selection :: "bool list \<Rightarrow> int \<Rightarrow> int list list \<Rightarrow> int list list" where
  "add_selection m code selections =
     map2 (\<lambda>b sel. if b \<and> code \<notin> set sel then sel @ [code] else sel) m selections"

fun quali_multiple_lines ::
    "string \<Rightarrow> dataframe \<Rightarrow> DataMap \<Rightarrow> int list list \<Rightarrow> string list
     \<Rightarrow> error + int list list" where
  "quali_multiple_lines name df datamap selections [] = Inr selections"
| "quali_multiple_lines name df datamap selections (line # lines) =
     (if has_colon line then
        (case py_int (strip (fst (split_colon line))) of
           None \<Rightarrow> Inl (InvalidLiteral (strip (fst (split_colon line))))
         | Some code \<Rightarrow>
             (case evaluate_formula df (strip (snd (split_colon line))) datamap of
                Inl e \<Rightarrow> Inl (RecodeLineError name line e)
              | Inr m \<Rightarrow>
                  quali_multiple_lines name df datamap (add_selection m code selections) lines))
      else quali_multiple_lines name df datamap selections lines)"

definition codes_cell :: "int list \<Rightarrow> cell" where
  "codes_cell codes = (if codes = [] then Null else Str (join '','' (map str_int (sort codes))))"

definition quali_multiple_calculate ::
    "recode_base \<Rightarrow> dataframe \<Rightarrow> DataMap \<Rightarrow> error + cell list" where
  "quali_multiple_calculate b df datamap =
     (case quali_multiple_lines (r_name b) df datamap (replicate (nrows df) [])
             (formula_lines (r_formula b)) of
        Inl e \<Rightarrow> Inl e
      | Inr selections \<Rightarrow> Inr (map codes_cell selections))"

subsection \<open>Recodes that name one source variable\<close>

text \<open>
  The bracket pattern \<^verbatim>\<open>\["([^"]+)"\]\<close>: \<open>match_var_ref\<close> matches it at the start of
  a text, \<open>search_var_ref\<close> is \<open>var_pattern.search(formula)\<close> followed by
  \<open>group(1)\<close>.
\<close>

definition match_var_ref :: "string \<Rightarrow> (string \<times> string) option" where
  "match_var_ref s =
     (case s of
        a # b # s1 \<Rightarrow>
          if a = CHR ''['' \<and> b = CHR 0x22 then
            (let name = takeWhile (\<lambda>c. c \<noteq> CHR 0x22) s1;
                 r = dropWhile (\<lambda>c. c \<noteq> CHR 0x22) s1
             in if name = [] then None
                else (case r of
                        q # c # r' \<Rightarrow> if c = CHR '']'' then Some (name, r') else None
                      | _ \<Rightarrow> None))
          else None
      | _ \<Rightarrow> None)"

fun search_var_ref :: "string \<Rightarrow> string option" where
  "search_var_ref [] = None"
| "search_var_ref (c # cs) =
     (case match_var_ref (c # cs) of
        Some (n, r) \<Rightarrow> Some n
      | None \<Rightarrow> search_var_ref cs)"

lemma match_var_ref_length:
  assumes "match_var_ref s = Some (n, r)"
  shows "length r < length s"
proof -
  obtain a b s1 where s: "s = a # b # s1"
    using assms by (auto simp: match_var_ref_def split: list.splits)
  let ?r = "dropWhile (\<lambda>c. c \<noteq> CHR 0x22) s1"
  obtain q c where r: "?r = q # c # r"
    using assms s
    by (auto simp: match_var_ref_def Let_def split: if_splits list.splits)
  have "length ?r \<le> length s1" by (rule length_dropWhile_le)
  with r s show ?thesis by simp
qed

text \<open>\<open>count_answers\<close> of \<open>NumberOfAnswersRecode.calculate\<close>.\<close>

definition count_answers :: "cell \<Rightarrow> cell" where
  "count_answers v =
     (case v of
        Null \<Rightarrow> Num 0
      | Str s \<Rightarrow> Num (of_nat (length (filter (\<lambda>c. strip c \<noteq> []) (split_on CHR '','' s))))
      | Num r \<Rightarrow> Num 1)"

definition number_of_answers_calculate :: "recode_base \<Rightarrow> dataframe \<Rightarrow> error + cell list" where
  "number_of_answers_calculate b df =
     (case search_var_ref (r_formula b) of
        None \<Rightarrow> Inl (CouldNotParseVariable (r_formula b))
      | Some var_name \<Rightarrow>
          if \<not> has_column df var_name then Inl (VariableNotInData var_name)
          else Inr (map count_answers (get_column df var_name)))"

text \<open>
  \<open>CombinationRecode.calculate\<close>: \<open>sorted(col.dropna().unique())\<close> orders numbers by
  value and texts by code points, and raises \<open>TypeError\<close> when both occur; every cell
  is then mapped to the position of its value, counted from 1.
\<close>

fun insert_str :: "string \<Rightarrow> string list \<Rightarrow> string list" where
  "insert_str x [] = [x]"
| "insert_str x (y # ys) = (if str_less y x then y # insert_str x ys else x # y # ys)"

fun cell_num :: "cell \<Rightarrow> rat option" where
  "cell_num (Num r) = Some r"
| "cell_num _ = None"

fun cell_str :: "cell \<Rightarrow> string option" where
  "cell_str (Str s) = Some s"
| "cell_str _ = None"

definition sorted_combos :: "cell list \<Rightarrow> error + cell list" where
  "sorted_combos col =
     (let unique_combos = remdups (filter (\<lambda>c. c \<noteq> Null) col)
      in case those (map cell_num unique_combos) of
           Some nums \<Rightarrow> Inr (map Num (sort nums))
         | None \<Rightarrow>
             (case those (map cell_str unique_combos) of
                Some strs \<Rightarrow> Inr (map Str (foldr insert_str strs []))
              | None \<Rightarrow> Inl SortTypeError))"

fun index_of :: "'a \<Rightarrow> 'a list \<Rightarrow> nat" where
  "index_of x [] = 0"
| "index_of x (y # ys) = (if x = y then 0 else Suc (index_of x ys))"

definition combination_calculate :: "recode_base \<Rightarrow> dataframe \<Rightarrow> error + cell list" where
  "combination_calculate b df =
     (case search_var_ref (r_formula b) of
        None \<Rightarrow> Inl (CouldNotParseVariable (r_formula b))
      | Some var_name \<Rightarrow>
          if \<not> has_column df var_name then Inl (VariableNotInData var_name)
          else (case sorted_combos (get_column df var_name) of
                  Inl e \<Rightarrow> Inl e
                | Inr combos \<Rightarrow>
                    Inr (map (\<lambda>c. if c = Null then Null else Num (of_nat (index_of c combos + 1)))
                           (get_column df var_name))))"

text \<open>\<open>add_subtotals\<close> of \<open>QualiMultiINIRecode.calculate\<close>.\<close>

fun add_subtotal_codes :: "int list \<Rightarrow> int list \<Rightarrow> (int \<times> int list) list \<Rightarrow> int list" where
  "add_subtotal_codes codes result_codes [] = result_codes"
| "add_subtotal_codes codes result_codes ((st_code, st_members) # sts) =
     add_subtotal_codes codes
       (if (\<exists>c \<in> set st_members. c \<in> set codes) \<and> st_code \<notin> set result_codes
        then result_codes @ [st_code] else result_codes) sts"

definition add_subtotals :: "(int \<times> int list) list \<Rightarrow> cell \<Rightarrow> error + cell" where
  "add_subtotals subtotals v =
     (case v of
        Null \<Rightarrow> Inr Null
      | Str s \<Rightarrow>
          (case cell_codes_str s of
             Inl e \<Rightarrow> Inl e
           | Inr codes \<Rightarrow>
               Inr (Str (join '','' (map str_int (sort (add_subtotal_codes codes codes subtotals))))))
      | Num r \<Rightarrow>
          Inr (Str (join '','' (map str_int
                 (sort (add_subtotal_codes [py_trunc r] [py_trunc r] subtotals))))))"

definition quali_multi_ini_calculate ::
    "recode_base \<Rightarrow> (int \<times> int list) list \<Rightarrow> dataframe \<Rightarrow> error + cell list" where
  "quali_multi_ini_calculate b subtotals df =
     (case search_var_ref (r_formula b) of
        None \<Rightarrow> Inl (CouldNotParseVariable (r_formula b))
      | Some var_name \<Rightarrow>
          if \<not> has_column df var_name then Inl (VariableNotInData var_name)
          else map_err (add_subtotals subtotals) (get_column df var_name))"

subsection \<open>Weight and numeric recodes\<close>

fun weight_loop ::
    "dataframe \<Rightarrow> DataMap \<Rightarrow> rat list \<Rightarrow> (string \<times> rat) list \<Rightarrow> error + rat list" where
  "weight_loop df datamap result [] = Inr result"
| "weight_loop df datamap result ((condition, weight) # ws) =
     (case evaluate_formula df condition datamap of
        Inl e \<Rightarrow> Inl (WeightConditionError condition e)
      | Inr m \<Rightarrow> weight_loop df datamap (assign_where m weight result) ws)"

definition weight_calculate ::
    "(string \<times> rat) list \<Rightarrow> dataframe \<Rightarrow> DataMap \<Rightarrow> error + cell list" where
  "weight_calculate weights df datamap =
     (case weight_loop df datamap (replicate (nrows df) 1) weights of
        Inl e \<Rightarrow> Inl e
      | Inr result \<Rightarrow> Inr (map Num result))"

text \<open>
  \<open>NumericRecode.calculate\<close> uses the module-level name \<open>re\<close>, which
  recode\_engine.py binds only inside its \<open>if __name__ == "__main__"\<close> block:
  \<open>re_bound env\<close> says whether it is bound, and the call raises \<open>NameError\<close>
  otherwise.  \<open>finditer_var_ref\<close> lists the variables the formula names,
  \<open>sub_var_refs\<close> is \<open>var_pattern.sub(...)\<close>, and \<open>pd_eval env\<close> stands for
  \<open>pd.Series(pd.eval(formula_eval, local_dict={'df': df}), index=df.index)\<close>, with
  \<open>None\<close> when it raises.
\<close>

function finditer_var_ref :: "string \<Rightarrow> string list" where
  "finditer_var_ref [] = []"
| "finditer_var_ref (c # cs) =
     (case match_var_ref (c # cs) of
        None \<Rightarrow> finditer_var_ref cs
      | Some (n, r) \<Rightarrow> n # finditer_var_ref r)"
  by pat_completeness auto
termination
  by (relation "measure length") (auto dest: match_var_ref_length)

function sub_var_refs :: "string \<Rightarrow> string" where
  "sub_var_refs [] = []"
| "sub_var_refs (c # cs) =
     (case match_var_ref (c # cs) of
        None \<Rightarrow> c # sub_var_refs cs
      | Some (n, r) \<Rightarrow> ''df['' @ [CHR 0x27] @ n @ [CHR 0x27] @ '']'' @ sub_var_refs r)"
  by pat_completeness auto
termination
  by (relation "measure length") (auto dest: match_var_ref_length)

definition numeric_calculate :: "py_env \<Rightarrow> recode_base \<Rightarrow> dataframe \<Rightarrow> error + cell list" where
  "numeric_calculate env b df =
     (if \<not> re_bound env then Inl (NameError ''re'')
      else (case find (\<lambda>v. \<not> has_column df v) (finditer_var_ref (r_formula b)) of
              Some var_name \<Rightarrow> Inl (VariableNotInData var_name)
            | None \<Rightarrow>
                (case pd_eval env (sub_var_refs (r_formula b)) df of
                   None \<Rightarrow> Inl (NumericRecodeError (r_name b) PandasEvalError)
                 | Some col \<Rightarrow> Inr col)))"

subsection \<open>The engine\<close>

fun int_cell :: "int option \<Rightarrow> cell" where
  "int_cell None = Null"
| "int_cell (Some c) = Num (of_int c)"

text \<open>\<open>recode.calculate(result_df, datamap)\<close>, by subclass.\<close>

fun calculate :: "py_env \<Rightarrow> Recode \<Rightarrow> dataframe \<Rightarrow> DataMap \<Rightarrow> error + cell list" where
  "calculate env (QualiUniqueRecode b codes) df datamap =
     (case quali_unique_calculate b df datamap of
        Inl e \<Rightarrow> Inl e
      | Inr result \<Rightarrow> Inr (map int_cell result))"
| "calculate env (QualiMultipleRecode b codes) df datamap = quali_multiple_calculate b df datamap"
| "calculate env (NumericRecode b) df datamap = numeric_calculate env b df"
| "calculate env (NumberOfAnswersRecode b) df datamap = number_of_answers_calculate b df"
| "calculate env (CombinationRecode b) df datamap = combination_calculate b df"
| "calculate env (WeightRecode b weights) df datamap = weight_calculate weights df datamap"
| "calculate env (QualiMultiINIRecode b codes subtotals) df datamap =
     quali_multi_ini_calculate b subtotals df"

text \<open>The question type and the code table that \<open>calculate_all\<close> picks by subclass.\<close>

fun inferred_qtype :: "Recode \<Rightarrow> QuestionType" where
  "inferred_qtype (QualiUniqueRecode b codes) = QUALI_UNIQUE"
| "inferred_qtype (QualiMultipleRecode b codes) = QUALI_MULTI"
| "inferred_qtype (QualiMultiINIRecode b codes subtotals) = QUALI_MULTI"
| "inferred_qtype (NumericRecode b) = NUMERIC"
| "inferred_qtype (NumberOfAnswersRecode b) = NUMERIC"
| "inferred_qtype (WeightRecode b weights) = NUMERIC"
| "inferred_qtype (CombinationRecode b) = NUMERIC"

fun inferred_codes :: "Recode \<Rightarrow> (int \<times> string) list" where
  "inferred_codes (QualiUniqueRecode b codes) = codes"
| "inferred_codes (QualiMultipleRecode b codes) = codes"
| "inferred_codes (QualiMultiINIRecode b codes subtotals) = codes"
| "inferred_codes _ = []"

definition recode_question :: "Recode \<Rightarrow> Question" where
  "recode_question recode =
     \<lparr>q_name = r_name (base recode), q_qtype = inferred_qtype recode,
      q_title = r_title (base recode), q_codes = inferred_codes recode\<rparr>"

text \<open>
  \<open>RecodeEngine.calculate_all\<close>.  The loop works on \<open>result_df\<close>, a copy of the
  caller's \<open>df\<close>, and on the caller's \<open>datamap\<close> object itself.  The outcome is the
  raised error or the returned \<open>result_df\<close>, together with the \<open>datamap\<close> as the
  call leaves it; the caller's \<open>df\<close> is never written to.
\<close>

fun calculate_all_loop ::
    "py_env \<Rightarrow> dataframe \<Rightarrow> DataMap \<Rightarrow> Recode list \<Rightarrow> (error + dataframe) \<times> DataMap" where
  "calculate_all_loop env result_df datamap [] = (Inr result_df, datamap)"
| "calculate_all_loop env result_df datamap (recode # recodes) =
     (case calculate env recode result_df datamap of
        Inl e \<Rightarrow> (Inl (RecodeError (r_name (base recode)) e), datamap)
      | Inr recode_values \<Rightarrow>
          calculate_all_loop env
            (set_column result_df (r_name (base recode)) recode_values)
            (add_question datamap (recode_question recode)) recodes)"

definition calculate_all ::
    "py_env \<Rightarrow> Recode list \<Rightarrow> dataframe \<Rightarrow> DataMap \<Rightarrow> (error + dataframe) \<times> DataMap" where
  "calculate_all env recodes df datamap = calculate_all_loop env df datamap recodes"

section \<open>Significance markers (tab\_engine.py)\<close>

text \<open>
  A contingency table: the row labels, the column labels and the cells row by row, a
  cell being a count or a weight sum, or \<open>NaN\<close> (\<open>None\<close>).  Every row has one cell
  per column.  Numbers are modelled by the rationals they denote.
\<close>

record crosstab =
  ct_index :: "string list"
  ct_columns :: "string list"
  ct_values :: "rat option list list"

text \<open>\<open>data.drop('Total')\<close> and \<open>data.drop('Total', axis=1)\<close>, where the label occurs.\<close>

definition drop_total :: "crosstab \<Rightarrow> crosstab" where
  "drop_total ct =
     (let rows = filter (\<lambda>lr. fst lr \<noteq> ''Total'') (zip (ct_index ct) (ct_values ct));
          keep = map (\<lambda>l. l \<noteq> ''Total'') (ct_columns ct)
      in \<lparr>ct_index = map fst rows,
          ct_columns = filter (\<lambda>l. l \<noteq> ''Total'') (ct_columns ct),
          ct_values = map (\<lambda>lr. map snd (filter fst (zip keep (snd lr)))) rows\<rparr>)"

text \<open>\<open>data.sum(axis=0)\<close> for one column: \<open>NaN\<close> cells are skipped.\<close>

definition col_total :: "crosstab \<Rightarrow> nat \<Rightarrow> rat" where
  "col_total data j =
     sum_list (map (\<lambda>row. case row ! j of Some x \<Rightarrow> x | None \<Rightarrow> 0) (ct_values data))"

text \<open>
  A cell of \<open>data / col_totals\<close>.  Division by a zero total gives \<open>nan\<close> or an
  infinity; such a column is passed over by the test \<open>n_i > 0\<close>, and the model gives
  \<open>None\<close> for both.
\<close>

definition proportion :: "rat option \<Rightarrow> rat \<Rightarrow> rat option" where
  "proportion c n = (case c of None \<Rightarrow> None | Some x \<Rightarrow> if n = 0 then None else Some (x / n))"

text \<open>
  The body of the innermost loop of \<open>column_z_tests\<close>: whether column \<open>i\<close> gets the
  letter of column \<open>j\<close> in a row.  \<open>se > 0\<close> for \<open>se = np.sqrt(v)\<close> holds exactly
  when \<open>v > 0\<close>.  The parameter \<open>significant alpha z2\<close> stands for
  \<open>2 * (1 - stats.norm.cdf(abs(z))) < alpha\<close> as a function of \<open>alpha\<close> and the
  square of \<open>z\<close>.
\<close>

definition gets_letter ::
    "(rat \<Rightarrow> rat \<Rightarrow> bool) \<Rightarrow> rat \<Rightarrow> rat option \<Rightarrow> rat \<Rightarrow> rat option \<Rightarrow> rat \<Rightarrow> bool" where
  "gets_letter significant alpha c_i n_i c_j n_j =
     (case (c_i, c_j, proportion c_i n_i, proportion c_j n_j) of
        (Some x_i, Some x_j, Some p_i, Some p_j) \<Rightarrow>
          0 < n_i \<and> 0 < n_j \<and>
          (let p_pool = (x_i + x_j) / (n_i + n_j);
               v = p_pool * (1 - p_pool) * (1 / n_i + 1 / n_j)
           in 0 < v \<and> significant alpha ((p_i - p_j)\<^sup>2 / v) \<and> p_i > p_j)
      | _ \<Rightarrow> False)"

text \<open>
  A marker is a \<open>str\<close> of letters, given by its code points: \<open>chr(65 + j)\<close> is the
  letter of column \<open>j\<close>.  \<open>sig_letters\<close> is \<open>''.join(sorted(sig_letters))\<close> for one
  cell.
\<close>

definition letter :: "nat \<Rightarrow> nat" where
  "letter j = 65 + j"

definition sig_letters ::
    "(rat \<Rightarrow> rat \<Rightarrow> bool) \<Rightarrow> rat \<Rightarrow> rat list \<Rightarrow> rat option list \<Rightarrow> nat \<Rightarrow> nat list" where
  "sig_letters significant alpha col_totals row i =
     sort (map letter
       (filter (\<lambda>j. j \<noteq> i \<and>
                  gets_letter significant alpha (row ! i) (col_totals ! i) (row ! j) (col_totals ! j))
          [0..<length col_totals]))"

text \<open>
  \<open>SignificanceTest.column_z_tests\<close>.  With fewer than two data columns the result is
  a table of \<open>NaN\<close>.  With a repeated label, \<open>proportions.loc[row_idx, col_i]\<close> is
  not a scalar and the test on it raises in the first row.
\<close>

definition column_z_tests ::
    "(rat \<Rightarrow> rat \<Rightarrow> bool) \<Rightarrow> crosstab \<Rightarrow> rat \<Rightarrow> error + nat list option list list" where
  "column_z_tests significant crosstab alpha =
     (let data = drop_total crosstab;
          n_cols = length (ct_columns data)
      in if n_cols < 2 then Inr (map (\<lambda>row. map (\<lambda>c. None) (ct_columns data)) (ct_values data))
         else if ct_values data \<noteq> [] \<and> \<not> (distinct (ct_index data) \<and> distinct (ct_columns data))
         then Inl AmbiguousTruthValue
         else let col_totals = map (col_total data) [0..<n_cols]
              in Inr (map (\<lambda>row. map (\<lambda>i. Some (sig_letters significant alpha col_totals row i))
                                   [0..<n_cols])
                        (ct_values data)))"

text \<open>Whether the cell in row \<open>r\<close> and data column \<open>i\<close> of the markers carries a letter.\<close>

definition marked :: "nat list option list list \<Rightarrow> nat \<Rightarrow> nat \<Rightarrow> nat \<Rightarrow> bool" where
  "marked markers r i l = (case markers ! r ! i of Some s \<Rightarrow> l \<in> set s | None \<Rightarrow> False)"

text \<open>
  Example: two answers by two groups of fifty, and the decision \<open>|z| > 1.96\<close> for
  \<open>alpha = 0.05\<close>.
\<close>

definition example_crosstab :: crosstab where
  "example_crosstab =
     \<lparr>ct_index = [''yes'', ''no'', ''Total''],
      ct_columns = [''men'', ''women'', ''Total''],
      ct_values = [[Some 40, Some 10, Some 50],
                   [Some 10, Some 40, Some 50],
                   [Some 50, Some 50, Some 100]]\<rparr>"

definition example_significant :: "rat \<Rightarrow> rat \<Rightarrow> bool" where
  "example_significant alpha z2 = (z2 > 38416 / 10000)"

section \<open>Percentages (tab\_engine.py)\<close>





section \<open>Notions used in the properties\<close>

text \<open>
  Every column of a \<open>DataFrame\<close> has one cell per row.
\<close>

definition wf_df :: "dataframe \<Rightarrow> bool" where
  "wf_df df = list_all (\<lambda>col. length (snd col) = nrows df) (columns df)"

text \<open>
  For a formula line \<open>code: condition\<close> of a choice recode: its code, and whether its
  condition matches row \<open>i\<close> of the dataset.  In declared order, the first and the
  last matching line of a row.
\<close>

definition line_code :: "string \<Rightarrow> int option" where
  "line_code line = py_int (strip (fst (split_colon line)))"

definition line_matches :: "dataframe \<Rightarrow> DataMap \<Rightarrow> nat \<Rightarrow> string \<Rightarrow> bool" where
  "line_matches df datamap i line =
     (has_colon line \<and>
      (case evaluate_formula df (strip (snd (split_colon line))) datamap of
         Inr m \<Rightarrow> m ! i
       | Inl e \<Rightarrow> False))"

definition first_match_code :: "dataframe \<Rightarrow> DataMap \<Rightarrow> string list \<Rightarrow> nat \<Rightarrow> int option" where
  "first_match_code df datamap lines i =
     (case filter (line_matches df datamap i) lines of
        [] \<Rightarrow> None
      | l # ls \<Rightarrow> line_code l)"

definition last_match_code :: "dataframe \<Rightarrow> DataMap \<Rightarrow> string list \<Rightarrow> nat \<Rightarrow> int option" where
  "last_match_code df datamap lines i =
     (case filter (line_matches df datamap i) lines of
        [] \<Rightarrow> None
      | l # ls \<Rightarrow> line_code (last (l # ls)))"

text \<open>
  The word \<open>or\<close> in any letter case with one blank directly before and after it,
  looked for in the formula text itself.
\<close>

fun or_word_at :: "string \<Rightarrow> bool" where
  "or_word_at (a # b # c # d # rest) =
     (a = CHR '' '' \<and> (b = CHR ''o'' \<or> b = CHR ''O'') \<and> (c = CHR ''r'' \<or> c = CHR ''R'')
      \<and> d = CHR '' '')"
| "or_word_at _ = False"

fun has_or_word :: "string \<Rightarrow> bool" where
  "has_or_word [] = False"
| "has_or_word (c # cs) = (or_word_at (c # cs) \<or> has_or_word cs)"






subsection \<open>Example data\<close>

definition example_df :: dataframe where
  "example_df = \<lparr>nrows = 2, columns = [(''A'', [Num 1, Null])]\<rparr>"

definition example_datamap :: DataMap where
  "example_datamap =
     [(''A'', \<lparr>q_name = ''A'', q_qtype = NUMERIC, q_title = ''A'', q_codes = []\<rparr>)]"

definition overlapping_recode :: recode_base where
  \<open>overlapping_recode =
     \<lparr>r_name = ''R'', r_rtype = RT_QUALI_UNIQUE, r_title = ''R'',
      r_formula = ''1: ["A"=1]\<newline>2: ["A">=1]'', r_option_na = False\<rparr>\<close>

definition colonless_recode :: recode_base where
  \<open>colonless_recode =
     \<lparr>r_name = ''R'', r_rtype = RT_QUALI_UNIQUE, r_title = ''R'',
      r_formula = ''["A"=1]\<newline>  \<newline>two'', r_option_na = False\<rparr>\<close>

text \<open>
  An environment for the examples: \<open>eval\<close> of the two lambdas
  \<open>lambda x: x>=1\<close> and \<open>lambda x: x>=2\<close>, which compare a number and raise
  \<open>TypeError\<close> on a text; the name \<open>re\<close> is not bound.
\<close>

definition example_env :: py_env where
  "example_env =
     \<lparr>py_eval = (\<lambda>s. if s = ''x>=1''
                      then Some (\<lambda>c. case c of Num r \<Rightarrow> Some (r \<ge> 1) | _ \<Rightarrow> None)
                      else if s = ''x>=2''
                      then Some (\<lambda>c. case c of Num r \<Rightarrow> Some (r \<ge> 2) | _ \<Rightarrow> None)
                      else None),
      re_bound = False,
      pd_eval = (\<lambda>formula_eval df. None)\<rparr>"


text \<open>
  For a bin \<open>(formula, label)\<close> of a class: whether its predicate matches a cell
  (bins without \<open>X\<close> are passed over, null cells are never tested).  In declared order,
  the label of the first and of the last matching bin of a cell.
\<close>

definition bin_holds :: "py_env \<Rightarrow> cell \<Rightarrow> string \<times> string \<Rightarrow> bool" where
  "bin_holds env v bin =
     (case parse_class_formula env (fst bin) of
        Inr (Some func) \<Rightarrow> v \<noteq> Null \<and> func v = Some True
      | _ \<Rightarrow> False)"

definition first_bin_label :: "py_env \<Rightarrow> (string \<times> string) list \<Rightarrow> cell \<Rightarrow> string option" where
  "first_bin_label env bins v =
     (case filter (bin_holds env v) bins of
        [] \<Rightarrow> None
      | b # bs \<Rightarrow> Some (snd b))"

definition last_bin_label :: "py_env \<Rightarrow> (string \<times> string) list \<Rightarrow> cell \<Rightarrow> string option" where
  "last_bin_label env bins v =
     (case filter (bin_holds env v) bins of
        [] \<Rightarrow> None
      | b # bs \<Rightarrow> Some (snd (last (b # bs))))"

definition overlapping_class :: Class where
  "overlapping_class =
     \<lparr>c_name = ''K'', c_bins = [(''X>=1'', ''low''), (''X>=2'', ''high'')], c_option_na = False\<rparr>"

text \<open>
  One step of the loop of \<open>evaluate_formula\<close> over the further conditions:
  \<open>result | cond\<close> or \<open>result & cond\<close>.
\<close>

definition combine_step :: "bool \<Rightarrow> bool list \<Rightarrow> bool list \<Rightarrow> bool list" where
  "combine_step use_or acc cond = (if use_or then map2 (\<or>) acc cond else map2 (\<and>) acc cond)"


text \<open>
  The callers write \<open>df = recode_engine.calculate_all(df, datamap)\<close>: after the call
  they hold the returned dataset, or, when the call raised, the dataset they passed in.
\<close>

definition dataset_after :: "dataframe \<Rightarrow> error + dataframe \<Rightarrow> dataframe" where
  "dataset_after df outcome = (case outcome of Inr result_df \<Rightarrow> result_df | Inl e \<Rightarrow> df)"

definition recode_name :: "Recode \<Rightarrow> string" where
  "recode_name recode = r_name (base recode)"

definition count_recode :: "string \<Rightarrow> string \<Rightarrow> Recode" where
  "count_recode name formula =
     NumberOfAnswersRecode
       \<lparr>r_name = name, r_rtype = RT_NUMBER_OF_ANSWERS, r_title = name,
        r_formula = formula, r_option_na = False\<rparr>"


section \<open>Properties\<close>

subsection \<open>Filter validation\<close>

text \<open>
  Claim C4: for every registered filter whose formula yields zero atomic conditions,
  \<open>FilterEngine.validate\<close> returns an error for that filter.  On the code this fails:
  \<open>parse_variable_condition\<close> returns the empty list for such a formula and raises
  nothing, so \<open>validate\<close> has nothing to catch.  For the filter \<open>F\<close> with formula
  \<open>hello\<close> the returned list is empty, while applying the same filter raises
  \<open>No valid conditions found in formula\<close>, the check that \<open>validate\<close> misses.
\<close>

theorem C4_validate_reports_nothing_for_formula_without_conditions:
  \<open>parse_variable_condition ''hello'' = Inr []
   \<and> filter_validate [(''F'', \<lparr>f_name = ''F'', f_formula = ''hello'', f_with_na = False\<rparr>)] [] = []
   \<and> apply_filter [(''F'', \<lparr>f_name = ''F'', f_formula = ''hello'', f_with_na = False\<rparr>)]
         \<lparr>nrows = 0, columns = []\<rparr> ''F'' []
       = Inl (FilterError ''F'' (NoValidConditions ''hello''))\<close>
  by code_simp

subsection \<open>Shapes of the intermediate vectors\<close>

lemma map_err_length: "map_err f xs = Inr ys \<Longrightarrow> length ys = length xs"
  by (induction xs arbitrary: ys) (auto split: sum.splits)

lemma get_column_length:
  assumes "wf_df df" and "has_column df v"
  shows "length (get_column df v) = nrows df"
proof -
  from assms(2) obtain col where "map_of (columns df) v = Some col"
    unfolding has_column_def by (cases "map_of (columns df) v") (auto simp: map_of_eq_None_iff)
  moreover from this have "(v, col) \<in> set (columns df)" by (rule map_of_SomeD)
  ultimately show ?thesis
    using assms(1) unfolding wf_df_def get_column_def list_all_iff by force
qed

lemma evaluate_condition_length:
  assumes "wf_df df" and "evaluate_condition df v opr val = Inr m"
  shows "length m = nrows df"
proof -
  have hc: "has_column df v"
    using assms(2) by (cases "has_column df v") (simp_all add: evaluate_condition_def)
  have len: "length (get_column df v) = nrows df"
    using assms(1) hc by (rule get_column_length)
  show ?thesis
  proof (cases "opr \<in> set [''C'', ''NC'', ''CO'', ''NCO'']")
    case True
    then have "map_err (contains_check opr (value_list val)) (get_column df v) = Inr m"
      using assms(2) hc unfolding evaluate_condition_def Let_def by simp
    then show ?thesis using len by (simp add: map_err_length)
  next
    case False
    show ?thesis
    proof (cases val)
      case (Scalar x)
      have "map_err (compare_cell opr x) (get_column df v) = Inr m"
        using assms(2) hc False Scalar unfolding evaluate_condition_def Let_def
        by (simp split: if_splits)
      then show ?thesis using len by (simp add: map_err_length)
    next
      case (Codes ns)
      then show ?thesis
        using assms(2) hc False unfolding evaluate_condition_def Let_def
        by (simp split: if_splits)
    qed
  qed
qed

lemma eval_one_length:
  assumes "wf_df df" and "eval_one df dm c = Inr m"
  shows "length m = nrows df"
proof -
  obtain v opr val where c: "c = (v, opr, val)" by (cases c) auto
  from assms(2) c have "evaluate_condition df v opr val = Inr m"
    unfolding eval_one_def by (simp split: option.splits)
  with assms(1) show ?thesis by (rule evaluate_condition_length)
qed

lemma combine_conditions_length:
  "wf_df df \<Longrightarrow> length result = nrows df \<Longrightarrow> combine_conditions df dm use_or result cs = Inr m
   \<Longrightarrow> length m = nrows df"
proof (induction cs arbitrary: result)
  case Nil
  then show ?case by simp
next
  case (Cons c cs)
  from Cons.prems(3) obtain cond where c: "eval_one df dm c = Inr cond"
    and r: "combine_conditions df dm use_or
              (if use_or then map2 (\<or>) result cond else map2 (\<and>) result cond) cs = Inr m"
    by (auto split: sum.splits)
  have "length cond = nrows df" using Cons.prems(1) c by (rule eval_one_length)
  then have "length (if use_or then map2 (\<or>) result cond else map2 (\<and>) result cond) = nrows df"
    using Cons.prems(2) by simp
  then show ?case using Cons.IH Cons.prems(1) r by blast
qed

lemma evaluate_formula_length:
  assumes "wf_df df" and "evaluate_formula df formula dm = Inr m"
  shows "length m = nrows df"
proof -
  from assms(2) obtain c rest result where
    c: "eval_one df dm c = Inr result"
    and r: "combine_conditions df dm (has_or formula) result rest = Inr m"
    unfolding evaluate_formula_def by (simp split: sum.splits list.splits)
  have "length result = nrows df" using assms(1) c by (rule eval_one_length)
  with assms(1) show ?thesis using r by (rule combine_conditions_length)
qed

lemma assign_where_length: "length m = length r \<Longrightarrow> length (assign_where m v r) = length r"
  by (simp add: assign_where_def)

lemma assign_where_nth:
  "length m = length r \<Longrightarrow> i < length r \<Longrightarrow> assign_where m v r ! i = (if m ! i then v else r ! i)"
  by (simp add: assign_where_def)

subsection \<open>Single-choice recodes: which line wins\<close>

lemma quali_unique_lines_last:
  assumes "wf_df df" "length result = nrows df" "i < nrows df"
    and "quali_unique_lines name df dm result lines = Inr res"
  shows "res ! i = (case filter (line_matches df dm i) lines of
                      [] \<Rightarrow> result ! i | l # ls \<Rightarrow> line_code (last (l # ls)))"
  using assms
proof (induction lines arbitrary: result)
  case Nil
  then show ?case by simp
next
  case (Cons line lines)
  show ?case
  proof (cases "has_colon line")
    case False
    then have "\<not> line_matches df dm i line" by (simp add: line_matches_def)
    moreover have "quali_unique_lines name df dm result lines = Inr res"
      using Cons.prems(4) False by simp
    ultimately show ?thesis using Cons.IH[OF Cons.prems(1,2,3)] by simp
  next
    case True
    from Cons.prems(4) True obtain code m where
      code: "line_code line = Some code"
      and m: "evaluate_formula df (strip (snd (split_colon line))) dm = Inr m"
      and r: "quali_unique_lines name df dm (assign_where m (Some code) result) lines = Inr res"
      by (auto simp: line_code_def split: option.splits sum.splits)
    have lm: "length m = nrows df" using Cons.prems(1) m by (rule evaluate_formula_length)
    then have len: "length (assign_where m (Some code) result) = nrows df"
      using Cons.prems(2) by (simp add: assign_where_length)
    have nth: "assign_where m (Some code) result ! i = (if m ! i then Some code else result ! i)"
      using lm Cons.prems(2,3) by (simp add: assign_where_nth)
    have lmatch: "line_matches df dm i line = m ! i"
      using True m by (simp add: line_matches_def)
    have ih: "res ! i = (case filter (line_matches df dm i) lines of
                      [] \<Rightarrow> assign_where m (Some code) result ! i
                    | l # ls \<Rightarrow> line_code (last (l # ls)))"
      by (rule Cons.IH[OF Cons.prems(1) len Cons.prems(3) r])
    show ?thesis
    proof (cases "filter (line_matches df dm i) lines")
      case Nil
      then show ?thesis using ih nth lmatch code by simp
    next
      case (Cons l ls)
      then show ?thesis using ih lmatch by simp
    qed
  qed
qed

lemma quali_unique_lines_length:
  "wf_df df \<Longrightarrow> length result = nrows df
   \<Longrightarrow> quali_unique_lines name df dm result lines = Inr res \<Longrightarrow> length res = nrows df"
proof (induction lines arbitrary: result)
  case Nil
  then show ?case by simp
next
  case (Cons line lines)
  show ?case
  proof (cases "has_colon line")
    case False
    then show ?thesis using Cons by simp
  next
    case True
    from Cons.prems(3) True obtain code m where
      m: "evaluate_formula df (strip (snd (split_colon line))) dm = Inr m"
      and r: "quali_unique_lines name df dm (assign_where m (Some code) result) lines = Inr res"
      by (auto split: option.splits sum.splits)
    have "length m = nrows df" using Cons.prems(1) m by (rule evaluate_formula_length)
    then have "length (assign_where m (Some code) result) = nrows df"
      using Cons.prems(2) by (simp add: assign_where_length)
    then show ?thesis using Cons.IH Cons.prems(1) r by blast
  qed
qed

text \<open>
  Claim C1, as the specification states it: \<open>QualiUniqueRecode.calculate\<close> gives every
  row the code of the first formula line, in declared order, whose condition matches the
  row.  This fails on the code: each line overwrites the rows it matches
  (\<open>result.loc[mask] = code\<close>), so a later matching line replaces the code of an earlier
  one.  With one row \<open>A = 1\<close> (and a null row) and the lines \<open>1: ["A"=1]\<close> and
  \<open>2: ["A">=1]\<close>, both lines match the first row, the first matching line has code 1 and
  the result is 2.
\<close>

theorem C1_first_match_counterexample:
  "quali_unique_calculate overlapping_recode example_df example_datamap = Inr [Some 2, None]
   \<and> first_match_code example_df example_datamap
        (formula_lines (r_formula overlapping_recode)) 0 = Some 1"
  by code_simp

text \<open>
  Claim C1, amended: when \<open>QualiUniqueRecode.calculate\<close> returns, the result has one
  entry per row, and every row holds the code of the last formula line, in declared
  order, whose condition matches it; a row that no line matches is null.
\<close>

theorem C1_last_matching_line_wins:
  assumes "wf_df df"
    and "quali_unique_calculate b df datamap = Inr result"
    and "i < nrows df"
  shows "length result = nrows df
         \<and> result ! i = last_match_code df datamap (formula_lines (r_formula b)) i"
proof -
  have run: "quali_unique_lines (r_name b) df datamap (replicate (nrows df) None)
               (formula_lines (r_formula b)) = Inr result"
    using assms(2) by (simp add: quali_unique_calculate_def)
  have len0: "length (replicate (nrows df) (None :: int option)) = nrows df" by simp
  have "length result = nrows df"
    using assms(1) len0 run by (rule quali_unique_lines_length)
  moreover have "result ! i =
      (case filter (line_matches df datamap i) (formula_lines (r_formula b)) of
         [] \<Rightarrow> replicate (nrows df) None ! i | l # ls \<Rightarrow> line_code (last (l # ls)))"
    using assms(1) len0 assms(3) run by (rule quali_unique_lines_last)
  ultimately show ?thesis
    using assms(3) by (simp add: last_match_code_def split: list.splits)
qed

theorem C1_last_matching_line_wins_witness:
  "wf_df example_df
   \<and> quali_unique_calculate overlapping_recode example_df example_datamap = Inr [Some 2, None]
   \<and> (0::nat) < nrows example_df
   \<and> length [Some (2::int), None] = nrows example_df
   \<and> [Some 2, None] ! 0
       = last_match_code example_df example_datamap (formula_lines (r_formula overlapping_recode)) 0"
proof -
  have h1: "wf_df example_df" by code_simp
  have h2: "quali_unique_calculate overlapping_recode example_df example_datamap
              = Inr [Some 2, None]" by code_simp
  have h3: "(0::nat) < nrows example_df" by code_simp
  show ?thesis
    using C1_last_matching_line_wins [OF h1 h2 h3] h1 h2 h3 by simp
qed

subsection \<open>Formula lines without a colon\<close>

lemma quali_unique_lines_skip:
  "quali_unique_lines name df dm result lines
     = quali_unique_lines name df dm result (filter has_colon lines)"
  by (induction lines arbitrary: result) (simp_all split: option.splits sum.splits)

lemma quali_multiple_lines_skip:
  "quali_multiple_lines name df dm sel lines
     = quali_multiple_lines name df dm sel (filter has_colon lines)"
  by (induction lines arbitrary: sel) (simp_all split: option.splits sum.splits)

text \<open>
  Claim C10: in \<open>QualiUniqueRecode.calculate\<close> and \<open>QualiMultipleRecode.calculate\<close>
  a non-empty formula line without a colon is skipped: the loops give the same outcome
  as on the lines that have a colon alone, so such a line neither raises nor assigns.  A
  recode whose formula has only such lines returns the all-null column.
\<close>

theorem C10_lines_without_colon_are_skipped:
  "quali_unique_lines name df datamap result lines
     = quali_unique_lines name df datamap result (filter has_colon lines)
   \<and> quali_multiple_lines name df datamap selections lines
     = quali_multiple_lines name df datamap selections (filter has_colon lines)
   \<and> (filter has_colon (formula_lines (r_formula b)) = [] \<longrightarrow>
        calculate env (QualiUniqueRecode b codes) df datamap = Inr (replicate (nrows df) Null)
        \<and> calculate env (QualiMultipleRecode b codes) df datamap
            = Inr (replicate (nrows df) Null))"
proof (intro conjI impI)
  show "quali_unique_lines name df datamap result lines
          = quali_unique_lines name df datamap result (filter has_colon lines)"
    by (rule quali_unique_lines_skip)
  show "quali_multiple_lines name df datamap selections lines
          = quali_multiple_lines name df datamap selections (filter has_colon lines)"
    by (rule quali_multiple_lines_skip)
next
  assume none: "filter has_colon (formula_lines (r_formula b)) = []"
  have "quali_unique_lines (r_name b) df datamap (replicate (nrows df) None)
          (formula_lines (r_formula b)) = Inr (replicate (nrows df) None)"
    using quali_unique_lines_skip [of "r_name b" df datamap _ "formula_lines (r_formula b)"] none
    by simp
  then show "calculate env (QualiUniqueRecode b codes) df datamap
               = Inr (replicate (nrows df) Null)"
    by (simp add: quali_unique_calculate_def)
next
  assume none: "filter has_colon (formula_lines (r_formula b)) = []"
  have "quali_multiple_lines (r_name b) df datamap (replicate (nrows df) [])
          (formula_lines (r_formula b)) = Inr (replicate (nrows df) [])"
    using quali_multiple_lines_skip [of "r_name b" df datamap _ "formula_lines (r_formula b)"] none
    by simp
  then show "calculate env (QualiMultipleRecode b codes) df datamap
               = Inr (replicate (nrows df) Null)"
    by (simp add: quali_multiple_calculate_def codes_cell_def)
qed

theorem C10_lines_without_colon_are_skipped_witness:
  "formula_lines (r_formula colonless_recode) = [''[\"A\"=1]'', ''two'']
   \<and> filter has_colon (formula_lines (r_formula colonless_recode)) = []
   \<and> calculate example_env (QualiUniqueRecode colonless_recode []) example_df example_datamap
       = Inr [Null, Null]
   \<and> calculate example_env (QualiMultipleRecode colonless_recode []) example_df example_datamap
       = Inr [Null, Null]"
proof -
  have h0: "formula_lines (r_formula colonless_recode) = [''[\"A\"=1]'', ''two'']" by code_simp
  have h1: "filter has_colon (formula_lines (r_formula colonless_recode)) = []" by code_simp
  have n: "replicate (nrows example_df) Null = [Null, Null]" by code_simp
  show ?thesis
    using C10_lines_without_colon_are_skipped
            [where b = colonless_recode and env = example_env and codes = "[]"
               and df = example_df and datamap = example_datamap] h0 h1 n
    by simp
qed

subsection \<open>Class binning: which bin wins\<close>

lemma those_map_Some:
  "those (map f xs) = Some ys
   \<Longrightarrow> length ys = length xs \<and> (\<forall>i<length xs. f (xs ! i) = Some (ys ! i))"
proof (induction xs arbitrary: ys)
  case Nil
  then show ?case by simp
next
  case (Cons x xs)
  from Cons.prems obtain y ys' where y: "f x = Some y" and t: "those (map f xs) = Some ys'"
    and ys: "ys = y # ys'"
    by (auto split: option.splits)
  from Cons.IH[OF t] have len: "length ys' = length xs"
    and nth: "\<forall>i<length xs. f (xs ! i) = Some (ys' ! i)" by simp_all
  show ?case
  proof (intro conjI allI impI)
    show "length ys = length (x # xs)" using len ys by simp
    fix i assume "i < length (x # xs)"
    then show "f ((x # xs) ! i) = Some (ys ! i)"
      using y nth ys by (cases i) simp_all
  qed
qed

lemma bin_matches_nth:
  assumes "bin_matches func series = Some matches"
  shows "length matches = length series"
    and "i < length series \<Longrightarrow> matches ! i = (series ! i \<noteq> Null \<and> func (series ! i) = Some True)"
proof -
  let ?f = "\<lambda>c. if c = Null then Some False else func c"
  from assms have t: "those (map ?f series) = Some matches" by (simp add: bin_matches_def)
  from those_map_Some[OF t] show "length matches = length series" by simp
  assume "i < length series"
  with those_map_Some[OF t] have "?f (series ! i) = Some (matches ! i)" by simp
  then show "matches ! i = (series ! i \<noteq> Null \<and> func (series ! i) = Some True)"
    by (cases "series ! i = Null") auto
qed

lemma apply_class_bins_last:
  assumes "length result = length series" and "i < length series"
    and "apply_class_bins env series result bins = Inr res"
  shows "length res = length series
         \<and> res ! i = (case filter (bin_holds env (series ! i)) bins of
                        [] \<Rightarrow> result ! i | b # bs \<Rightarrow> Some (snd (last (b # bs))))"
  using assms
proof (induction bins arbitrary: result)
  case Nil
  then show ?case by simp
next
  case (Cons bin bins)
  obtain formula label where bin: "bin = (formula, label)" by (cases bin) auto
  from Cons.prems(3) bin obtain pf where pf: "parse_class_formula env formula = Inr pf"
    by (cases "parse_class_formula env formula") simp_all
  show ?case
  proof (cases pf)
    case None
    then have "\<not> bin_holds env (series ! i) bin"
      using pf bin by (simp add: bin_holds_def)
    moreover have "apply_class_bins env series result bins = Inr res"
      using Cons.prems(3) bin pf None by simp
    ultimately show ?thesis using Cons.IH[OF Cons.prems(1,2)] by simp
  next
    case (Some func)
    from Cons.prems(3) bin pf Some obtain matches where
      m: "bin_matches func series = Some matches"
      and r: "apply_class_bins env series (assign_where matches (Some label) result) bins = Inr res"
      by (auto split: option.splits)
    have lm: "length matches = length series" using m by (rule bin_matches_nth(1))
    have mi: "matches ! i = (series ! i \<noteq> Null \<and> func (series ! i) = Some True)"
      using m Cons.prems(2) by (rule bin_matches_nth(2))
    have len: "length (assign_where matches (Some label) result) = length series"
      using lm Cons.prems(1) by (simp add: assign_where_length)
    have nth: "assign_where matches (Some label) result ! i
                 = (if matches ! i then Some label else result ! i)"
      using lm Cons.prems(1,2) by (simp add: assign_where_nth)
    have holds: "bin_holds env (series ! i) bin = matches ! i"
      using pf Some bin mi by (simp add: bin_holds_def)
    have ih: "length res = length series
         \<and> res ! i = (case filter (bin_holds env (series ! i)) bins of
                        [] \<Rightarrow> assign_where matches (Some label) result ! i
                      | b # bs \<Rightarrow> Some (snd (last (b # bs))))"
      by (rule Cons.IH[OF len Cons.prems(2) r])
    show ?thesis
    proof (cases "filter (bin_holds env (series ! i)) bins")
      case Nil
      then show ?thesis using ih nth holds bin by simp
    next
      case (Cons b bs)
      then show ?thesis using ih holds by simp
    qed
  qed
qed

text \<open>
  Claim C2, as the specification states it: \<open>apply_class\<close> is first-match-wins, a cell
  that matches several bins gets the label of the earliest declared one.  This fails on
  the code: every bin overwrites the cells it matches
  (\<open>result.loc[mask & matches] = label\<close>).  For the class with the bins
  \<open>("X>=1", "low")\<close> and \<open>("X>=2", "high")\<close> and the cell \<open>5\<close>, both bins match,
  the first matching bin is \<open>low\<close> and the result is \<open>high\<close>.
\<close>

theorem C2_first_bin_counterexample:
  "engine_apply_class example_env [(''K'', overlapping_class)] [Num 5] ''K'' = Inr [Some ''high'']
   \<and> first_bin_label example_env (c_bins overlapping_class) (Num 5) = Some ''low''"
  by code_simp

text \<open>
  Claim C2, amended: for every registered class, when \<open>apply_class\<close> returns, the
  result has one entry per cell, and every cell holds the label of the last bin, in
  declared order, whose predicate matches it; a cell that no bin matches stays null.
\<close>

theorem C2_last_matching_bin_wins:
  assumes "map_of ce class_name = Some class_obj"
    and "engine_apply_class env ce series class_name = Inr result"
    and "i < length series"
  shows "length result = length series
         \<and> result ! i = last_bin_label env (c_bins class_obj) (series ! i)"
proof -
  have run: "apply_class_bins env series (replicate (length series) None) (c_bins class_obj)
               = Inr result"
    using assms(1,2) by (simp add: engine_apply_class_def apply_class_def split: sum.splits)
  have len0: "length (replicate (length series) (None :: string option)) = length series"
    by simp
  from apply_class_bins_last[OF len0 assms(3) run] assms(3)
  show ?thesis by (simp add: last_bin_label_def split: list.splits)
qed

theorem C2_last_matching_bin_wins_witness:
  "map_of [(''K'', overlapping_class)] ''K'' = Some overlapping_class
   \<and> engine_apply_class example_env [(''K'', overlapping_class)] [Num 5] ''K''
       = Inr [Some ''high'']
   \<and> (0::nat) < length [Num 5]
   \<and> length [Some ''high''] = length [Num 5]
   \<and> [Some ''high''] ! 0 = last_bin_label example_env (c_bins overlapping_class) ([Num 5] ! 0)"
proof -
  have h1: "map_of [(''K'', overlapping_class)] ''K'' = Some overlapping_class" by simp
  have h2: "engine_apply_class example_env [(''K'', overlapping_class)] [Num 5] ''K''
              = Inr [Some ''high'']" by code_simp
  have h3: "(0::nat) < length [Num 5]" by simp
  show ?thesis
    using C2_last_matching_bin_wins [OF h1 h2 h3] h1 h2 by simp
qed

subsection \<open>Null cells\<close>

lemma null_cell_is_false_except_not_equal:
  "contains_check opr vals Null = Inr False"
  "opr \<noteq> ''!='' \<Longrightarrow> compare_cell opr v Null = Inr False"
  by (simp_all add: contains_check_def)

text \<open>
  Claim C3: with any of the operators, an atomic condition is false on a row whose cell
  is null.  The code keeps this for \<open>C\<close>, \<open>NC\<close>, \<open>CO\<close>, \<open>NCO\<close>, where
  \<open>contains_check\<close> returns \<open>False\<close> for a null cell before it looks at the
  operator, also for the negated ones, and for \<open>=\<close>, \<open>>\<close>, \<open><\<close>, \<open>>=\<close>,
  \<open><=\<close>.  The branch for \<open>!=\<close> returns \<open>col != value\<close> with no such guard, and
  a null cell compares unequal to every value: on the column \<open>A = [1, null]\<close> the
  condition \<open>["A"!=1]\<close> is true on the null row.
\<close>

theorem C3_not_equal_is_true_on_null_cell:
  \<open>evaluate_formula example_df ''["A"!=1]'' example_datamap = Inr [False, True]
   \<and> evaluate_condition example_df ''A'' ''!='' (Scalar (VInt 1)) = Inr [False, True]
   \<and> evaluate_condition example_df ''A'' ''NC'' (Codes [1]) = Inr [False, False]\<close>
  by code_simp

subsection \<open>Joining conditions\<close>

lemma combine_conditions_fold:
  "combine_conditions df dm use_or result cs = Inr m
   \<Longrightarrow> \<exists>vs. map_err (eval_one df dm) cs = Inr vs \<and> m = foldl (combine_step use_or) result vs"
proof (induction cs arbitrary: result)
  case Nil
  then show ?case by simp
next
  case (Cons c cs)
  from Cons.prems obtain cond where c: "eval_one df dm c = Inr cond"
    and r: "combine_conditions df dm use_or (combine_step use_or result cond) cs = Inr m"
    by (auto simp: combine_step_def split: sum.splits)
  from Cons.IH[OF r] obtain vs where vs: "map_err (eval_one df dm) cs = Inr vs"
    and m: "m = foldl (combine_step use_or) (combine_step use_or result cond) vs" by blast
  have "map_err (eval_one df dm) (c # cs) = Inr (cond # vs)" using c vs by simp
  moreover have "m = foldl (combine_step use_or) result (cond # vs)" using m by simp
  ultimately show ?case by blast
qed

lemma foldl_combine_step_nth:
  "length acc = n \<Longrightarrow> \<forall>v \<in> set vs. length v = n \<Longrightarrow> i < n
   \<Longrightarrow> length (foldl (combine_step use_or) acc vs) = n
       \<and> foldl (combine_step use_or) acc vs ! i
           = (if use_or then acc ! i \<or> (\<exists>v \<in> set vs. v ! i) else acc ! i \<and> (\<forall>v \<in> set vs. v ! i))"
proof (induction vs arbitrary: acc)
  case Nil
  then show ?case by simp
next
  case (Cons v vs)
  have lv: "length v = n" using Cons.prems(2) by simp
  have len: "length (combine_step use_or acc v) = n"
    using Cons.prems(1) lv by (simp add: combine_step_def)
  have nth: "combine_step use_or acc v ! i = (if use_or then acc ! i \<or> v ! i else acc ! i \<and> v ! i)"
    using Cons.prems(1,3) lv by (simp add: combine_step_def)
  have rest: "\<forall>v \<in> set vs. length v = n" using Cons.prems(2) by simp
  from Cons.IH[OF len rest Cons.prems(3)] nth
  show ?case by auto
qed

lemma map_err_nth:
  "map_err f xs = Inr ys \<Longrightarrow> \<forall>y \<in> set ys. \<exists>x \<in> set xs. f x = Inr y"
proof (induction xs arbitrary: ys)
  case Nil
  then show ?case by simp
next
  case (Cons x xs)
  from Cons.prems obtain y ys' where "f x = Inr y" "map_err f xs = Inr ys'" "ys = y # ys'"
    by (auto split: sum.splits)
  with Cons.IH show ?case by auto
qed

lemma evaluate_formula_joins:
  assumes "parse_variable_condition formula = Inr conditions"
    and "2 \<le> length conditions"
    and "evaluate_formula df formula datamap = Inr result"
  shows "\<exists>vectors. map_err (eval_one df datamap) conditions = Inr vectors
           \<and> result = foldl (combine_step (has_or formula)) (hd vectors) (tl vectors)
           \<and> (wf_df df \<longrightarrow> (\<forall>i<nrows df.
                 result ! i = (if has_or formula then (\<exists>v \<in> set vectors. v ! i)
                               else (\<forall>v \<in> set vectors. v ! i))))"
proof -
  from assms(2) obtain c rest where conds: "conditions = c # rest"
    by (cases conditions) auto
  from assms(1,3) conds obtain v where v: "eval_one df datamap c = Inr v"
    and r: "combine_conditions df datamap (has_or formula) v rest = Inr result"
    unfolding evaluate_formula_def by (simp split: sum.splits)
  from combine_conditions_fold[OF r] obtain vs where
    vs: "map_err (eval_one df datamap) rest = Inr vs"
    and res: "result = foldl (combine_step (has_or formula)) v vs" by blast
  have all: "map_err (eval_one df datamap) conditions = Inr (v # vs)"
    using conds v vs by simp
  have point: "wf_df df \<longrightarrow> (\<forall>i<nrows df.
                 result ! i = (if has_or formula then (\<exists>m \<in> set (v # vs). m ! i)
                               else (\<forall>m \<in> set (v # vs). m ! i)))"
  proof (intro impI allI)
    fix i assume wf: "wf_df df" and i: "i < nrows df"
    have lv: "length v = nrows df" using wf v by (rule eval_one_length)
    have lvs: "\<forall>m \<in> set vs. length m = nrows df"
    proof
      fix m assume "m \<in> set vs"
      with map_err_nth[OF vs] obtain x where "eval_one df datamap x = Inr m" by blast
      with wf show "length m = nrows df" by (rule eval_one_length)
    qed
    from foldl_combine_step_nth[OF lv lvs i, of "has_or formula"] res
    show "result ! i = (if has_or formula then (\<exists>m \<in> set (v # vs). m ! i)
                        else (\<forall>m \<in> set (v # vs). m ! i))"
      by simp
  qed
  show ?thesis
  proof (intro exI conjI)
    show "map_err (eval_one df datamap) conditions = Inr (v # vs)" by (rule all)
    show "result = foldl (combine_step (has_or formula)) (hd (v # vs)) (tl (v # vs))"
      using res by simp
    show "wf_df df \<longrightarrow> (\<forall>i<nrows df.
                 result ! i = (if has_or formula then (\<exists>m \<in> set (v # vs). m ! i)
                               else (\<forall>m \<in> set (v # vs). m ! i)))"
      by (rule point)
  qed
qed

text \<open>The test of the code, \<open>' or ' in formula.lower()\<close>, read on the formula text.\<close>

lemma of_char_lower_char:
  "(of_char (lower_char c) :: nat) =
     (if (65 \<le> (of_char c :: nat) \<and> (of_char c :: nat) \<le> 90)
         \<or> (192 \<le> (of_char c :: nat) \<and> (of_char c :: nat) \<le> 222 \<and> (of_char c :: nat) \<noteq> 215)
      then of_char c + 32 else of_char c)"
  by (auto simp: lower_char_def Let_def)

lemma lower_char_space: "lower_char c = CHR '' '' \<longleftrightarrow> c = CHR '' ''"
proof -
  have "lower_char c = CHR '' '' \<longleftrightarrow> (of_char (lower_char c) :: nat) = of_char CHR '' ''"
    by (simp only: of_char_eq_iff)
  also have "\<dots> \<longleftrightarrow> (of_char c :: nat) = of_char CHR '' ''"
    unfolding of_char_lower_char by auto
  also have "\<dots> \<longleftrightarrow> c = CHR '' ''" by (simp only: of_char_eq_iff)
  finally show ?thesis .
qed

lemma lower_char_o: "lower_char c = CHR ''o'' \<longleftrightarrow> c = CHR ''o'' \<or> c = CHR ''O''"
proof -
  have "lower_char c = CHR ''o'' \<longleftrightarrow> (of_char (lower_char c) :: nat) = of_char CHR ''o''"
    by (simp only: of_char_eq_iff)
  also have "\<dots> \<longleftrightarrow> (of_char c :: nat) = of_char CHR ''o'' \<or> (of_char c :: nat) = of_char CHR ''O''"
    unfolding of_char_lower_char by auto
  also have "\<dots> \<longleftrightarrow> c = CHR ''o'' \<or> c = CHR ''O''" by (simp only: of_char_eq_iff)
  finally show ?thesis .
qed

lemma lower_char_r: "lower_char c = CHR ''r'' \<longleftrightarrow> c = CHR ''r'' \<or> c = CHR ''R''"
proof -
  have "lower_char c = CHR ''r'' \<longleftrightarrow> (of_char (lower_char c) :: nat) = of_char CHR ''r''"
    by (simp only: of_char_eq_iff)
  also have "\<dots> \<longleftrightarrow> (of_char c :: nat) = of_char CHR ''r'' \<or> (of_char c :: nat) = of_char CHR ''R''"
    unfolding of_char_lower_char by auto
  also have "\<dots> \<longleftrightarrow> c = CHR ''r'' \<or> c = CHR ''R''" by (simp only: of_char_eq_iff)
  finally show ?thesis .
qed

lemma starts_with_or_word:
  "starts_with '' or '' (map lower_char s) \<noteq> None \<longleftrightarrow> or_word_at s"
proof (cases s)
  case Nil
  then show ?thesis by simp
next
  case (Cons a s1)
  show ?thesis
  proof (cases s1)
    case Nil
    then show ?thesis using Cons by simp
  next
    case (Cons b s2)
    note s1 = this
    show ?thesis
    proof (cases s2)
      case Nil
      then show ?thesis using \<open>s = a # s1\<close> s1 by simp
    next
      case (Cons c s3)
      note s2 = this
      show ?thesis
      proof (cases s3)
        case Nil
        then show ?thesis using \<open>s = a # s1\<close> s1 s2 by simp
      next
        case (Cons d s4)
        have "lower_char a = CHR '' '' \<longleftrightarrow> a = CHR '' ''" by (rule lower_char_space)
        moreover have "lower_char d = CHR '' '' \<longleftrightarrow> d = CHR '' ''" by (rule lower_char_space)
        moreover have "CHR ''o'' = lower_char b \<longleftrightarrow> b = CHR ''o'' \<or> b = CHR ''O''"
          using lower_char_o[of b] by auto
        moreover have "CHR ''r'' = lower_char c \<longleftrightarrow> c = CHR ''r'' \<or> c = CHR ''R''"
          using lower_char_r[of c] by auto
        ultimately show ?thesis
          using \<open>s = a # s1\<close> s1 s2 Cons by auto
      qed
    qed
  qed
qed

lemma has_or_iff_has_or_word: "has_or formula = has_or_word formula"
proof -
  have "contains_str '' or '' (map lower_char s) = has_or_word s" for s
  proof (induction s)
    case Nil
    then show ?case by simp
  next
    case (Cons c cs)
    have "contains_str '' or '' (map lower_char (c # cs))
            = (starts_with '' or '' (map lower_char (c # cs)) \<noteq> None
               \<or> contains_str '' or '' (map lower_char cs))"
      by simp
    also have "\<dots> = (or_word_at (c # cs) \<or> has_or_word cs)"
      using starts_with_or_word[of "c # cs"] Cons.IH by simp
    finally show ?case by simp
  qed
  then show ?thesis by (simp add: has_or_def lower_def)
qed

text \<open>
  Claim C7, as the specification states it: for a formula with two or more atomic
  conditions every join is \<open>or\<close> when the literal formula text contains the token
  \<open>or\<close> anywhere, and \<open>and\<close> otherwise.  This fails on the code, which looks for
  \<open>' or '\<close>, the word with a blank on either side, in the lower-cased text.  The
  formula \<open>["A"=1]or["A"!=1]\<close> contains \<open>or\<close> and has two conditions, which hold on
  the rows \<open>[True, False]\<close> and \<open>[False, True]\<close> of the example; joined with
  \<open>or\<close> they give \<open>[True, True]\<close>, and the code joins them with \<open>and\<close> and returns
  \<open>[False, False]\<close>.
\<close>

theorem C7_token_or_counterexample:
  \<open>contains_str ''or'' ''["A"=1]or["A"!=1]''
   \<and> parse_variable_condition ''["A"=1]or["A"!=1]''
       = Inr [(''A'', ''='', Scalar (VInt 1)), (''A'', ''!='', Scalar (VInt 1))]
   \<and> map_err (eval_one example_df example_datamap)
         [(''A'', ''='', Scalar (VInt 1)), (''A'', ''!='', Scalar (VInt 1))]
       = Inr [[True, False], [False, True]]
   \<and> foldl (combine_step True) [True, False] [[False, True]] = [True, True]
   \<and> evaluate_formula example_df ''["A"=1]or["A"!=1]'' example_datamap = Inr [False, False]\<close>
  by code_simp

text \<open>
  Claim C7, amended: for a formula with two or more atomic conditions,
  \<open>evaluate_formula\<close> joins the boolean vectors of the conditions from left to right,
  and every join is \<open>or\<close> when the formula text contains, anywhere, the word \<open>or\<close>
  in any letter case with one blank directly before and one directly after it; every
  join is \<open>and\<close> otherwise.  So a row of the result is true when some condition holds
  on it (with that word), or when all conditions hold on it (without).
\<close>

theorem C7_or_between_blanks_else_and:
  assumes "parse_variable_condition formula = Inr conditions"
    and "2 \<le> length conditions"
    and "evaluate_formula df formula datamap = Inr result"
  shows "\<exists>vectors. map_err (eval_one df datamap) conditions = Inr vectors
           \<and> result = foldl (combine_step (has_or_word formula)) (hd vectors) (tl vectors)
           \<and> (wf_df df \<longrightarrow> (\<forall>i<nrows df.
                 result ! i = (if has_or_word formula then (\<exists>v \<in> set vectors. v ! i)
                               else (\<forall>v \<in> set vectors. v ! i))))"
  using evaluate_formula_joins [OF assms] unfolding has_or_iff_has_or_word .

theorem C7_or_between_blanks_else_and_witness:
  \<open>parse_variable_condition ''["A"=1] OR ["A"!=1]''
     = Inr [(''A'', ''='', Scalar (VInt 1)), (''A'', ''!='', Scalar (VInt 1))]
   \<and> has_or_word ''["A"=1] OR ["A"!=1]''
   \<and> evaluate_formula example_df ''["A"=1] OR ["A"!=1]'' example_datamap = Inr [True, True]
   \<and> \<not> has_or_word ''["A"=1] and ["A"!=1]''
   \<and> evaluate_formula example_df ''["A"=1] and ["A"!=1]'' example_datamap = Inr [False, False]
   \<and> (\<exists>vectors.
         map_err (eval_one example_df example_datamap)
           [(''A'', ''='', Scalar (VInt 1)), (''A'', ''!='', Scalar (VInt 1))] = Inr vectors
         \<and> [True, True]
             = foldl (combine_step (has_or_word ''["A"=1] OR ["A"!=1]'')) (hd vectors) (tl vectors))\<close>
proof -
  have h1: \<open>parse_variable_condition ''["A"=1] OR ["A"!=1]''
     = Inr [(''A'', ''='', Scalar (VInt 1)), (''A'', ''!='', Scalar (VInt 1))]\<close> by code_simp
  have h2: "2 \<le> length [(''A'', ''='', Scalar (VInt 1)), (''A'', ''!='', Scalar (VInt 1))]"
    by simp
  have h3: \<open>evaluate_formula example_df ''["A"=1] OR ["A"!=1]'' example_datamap
              = Inr [True, True]\<close> by code_simp
  have h4: \<open>has_or_word ''["A"=1] OR ["A"!=1]''\<close> by code_simp
  have h5: \<open>evaluate_formula example_df ''["A"=1] and ["A"!=1]'' example_datamap
              = Inr [False, False]\<close> by code_simp
  have h6: \<open>\<not> has_or_word ''["A"=1] and ["A"!=1]''\<close> by code_simp
  from C7_or_between_blanks_else_and [OF h1 h2 h3] h1 h3 h4 h5 h6
  show ?thesis by blast
qed

subsection \<open>The recode pipeline\<close>

lemma has_column_set_column:
  "has_column (set_column df n col) m = (m = n \<or> has_column df m)"
  by (auto simp: has_column_def set_column_def AList.dom_update)

lemma length_alist_update:
  "length (AList.update k v al) = (if k \<in> fst ` set al then length al else Suc (length al))"
  by (induction al) auto

lemma length_columns_set_column:
  "length (columns (set_column df n col))
     = (if has_column df n then length (columns df) else Suc (length (columns df)))"
  by (simp add: has_column_def set_column_def length_alist_update)

lemma get_question_add_question:
  "get_question (add_question dm q) n = (if n = q_name q then Some q else get_question dm n)"
  by (simp add: get_question_def add_question_def AList.update_conv')

lemma q_name_recode_question: "q_name (recode_question r) = recode_name r"
  by (simp add: recode_question_def recode_name_def)

lemma calculate_all_loop_keeps:
  "calculate_all_loop env df dm rs = (outcome, dm')
   \<Longrightarrow> get_question dm n \<noteq> None \<Longrightarrow> get_question dm' n \<noteq> None"
proof (induction rs arbitrary: df dm)
  case Nil
  then show ?case by simp
next
  case (Cons r rs)
  show ?case
  proof (cases "calculate env r df dm")
    case (Inl e)
    then show ?thesis using Cons.prems by simp
  next
    case (Inr vals)
    then have run: "calculate_all_loop env (set_column df (r_name (base r)) vals)
                      (add_question dm (recode_question r)) rs = (outcome, dm')"
      using Cons.prems(1) by simp
    have "get_question (add_question dm (recode_question r)) n \<noteq> None"
      using Cons.prems(2) by (simp add: get_question_add_question)
    with Cons.IH[OF run] show ?thesis by blast
  qed
qed

lemma calculate_all_loop_other:
  "calculate_all_loop env df dm rs = (outcome, dm')
   \<Longrightarrow> n \<notin> set (map recode_name rs) \<Longrightarrow> get_question dm' n = get_question dm n"
proof (induction rs arbitrary: df dm)
  case Nil
  then show ?case by simp
next
  case (Cons r rs)
  show ?case
  proof (cases "calculate env r df dm")
    case (Inl e)
    then show ?thesis using Cons.prems by simp
  next
    case (Inr vals)
    then have run: "calculate_all_loop env (set_column df (r_name (base r)) vals)
                      (add_question dm (recode_question r)) rs = (outcome, dm')"
      using Cons.prems(1) by simp
    have n: "n \<notin> set (map recode_name rs)" and nr: "n \<noteq> recode_name r"
      using Cons.prems(2) by auto
    have "get_question dm' n = get_question (add_question dm (recode_question r)) n"
      using run n by (rule Cons.IH)
    then show ?thesis
      using nr by (simp add: get_question_add_question q_name_recode_question)
  qed
qed

lemma calculate_all_loop_success:
  "calculate_all_loop env df dm rs = (Inr df', dm')
   \<Longrightarrow> (\<forall>n. has_column df n \<longrightarrow> has_column df' n)
       \<and> (\<forall>r \<in> set rs. has_column df' (recode_name r) \<and> get_question dm' (recode_name r) \<noteq> None)"
proof (induction rs arbitrary: df dm)
  case Nil
  then show ?case by simp
next
  case (Cons r rs)
  show ?case
  proof (cases "calculate env r df dm")
    case (Inl e)
    then show ?thesis using Cons.prems by simp
  next
    case (Inr vals)
    let ?df1 = "set_column df (r_name (base r)) vals"
    let ?dm1 = "add_question dm (recode_question r)"
    have run: "calculate_all_loop env ?df1 ?dm1 rs = (Inr df', dm')"
      using Inr Cons.prems(1) by simp
    have ih_n: "\<forall>n. has_column ?df1 n \<longrightarrow> has_column df' n"
      and ih_rs: "\<forall>x \<in> set rs. has_column df' (recode_name x) \<and> get_question dm' (recode_name x) \<noteq> None"
      using Cons.IH[OF run] by simp_all
    have c1: "has_column df' (recode_name r)"
      using ih_n by (simp add: has_column_set_column recode_name_def)
    have "get_question ?dm1 (recode_name r) \<noteq> None"
      by (simp add: get_question_add_question q_name_recode_question)
    with run have q1: "get_question dm' (recode_name r) \<noteq> None"
      by (rule calculate_all_loop_keeps)
    have keep: "\<forall>n. has_column df n \<longrightarrow> has_column df' n"
      using ih_n by (simp add: has_column_set_column)
    show ?thesis
      using keep ih_rs c1 q1 by simp
  qed
qed

lemma calculate_all_loop_failure:
  "calculate_all_loop env df dm rs = (Inl err, dm')
   \<Longrightarrow> \<exists>k<length rs. \<exists>result_df e.
         calculate_all_loop env df dm (take k rs) = (Inr result_df, dm')
         \<and> calculate env (rs ! k) result_df dm' = Inl e
         \<and> err = RecodeError (r_name (base (rs ! k))) e"
proof (induction rs arbitrary: df dm)
  case Nil
  then show ?case by simp
next
  case (Cons r rs)
  show ?case
  proof (cases "calculate env r df dm")
    case (Inl e)
    then have "err = RecodeError (r_name (base r)) e" and "dm' = dm"
      using Cons.prems by simp_all
    then have "calculate_all_loop env df dm (take 0 (r # rs)) = (Inr df, dm')
         \<and> calculate env ((r # rs) ! 0) df dm' = Inl e
         \<and> err = RecodeError (r_name (base ((r # rs) ! 0))) e"
      using Inl by simp
    then show ?thesis by (intro exI[of _ 0]) auto
  next
    case (Inr vals)
    let ?df1 = "set_column df (r_name (base r)) vals"
    let ?dm1 = "add_question dm (recode_question r)"
    have run: "calculate_all_loop env ?df1 ?dm1 rs = (Inl err, dm')"
      using Inr Cons.prems by simp
    from Cons.IH[OF run] obtain k result_df e where k: "k < length rs"
      and p: "calculate_all_loop env ?df1 ?dm1 (take k rs) = (Inr result_df, dm')"
      and c: "calculate env (rs ! k) result_df dm' = Inl e"
      and e: "err = RecodeError (r_name (base (rs ! k))) e" by blast
    have "calculate_all_loop env df dm (take (Suc k) (r # rs)) = (Inr result_df, dm')"
      using Inr p by simp
    moreover have "calculate env ((r # rs) ! Suc k) result_df dm' = Inl e" using c by simp
    moreover have "err = RecodeError (r_name (base ((r # rs) ! Suc k))) e" using e by simp
    moreover have "Suc k < length (r # rs)" using k by simp
    ultimately show ?thesis by blast
  qed
qed

text \<open>
  Claim C5, as the specification states it: when \<open>calculate_all\<close> fails at the k-th
  recode, the columns added for the recodes before it remain in the dataset.  This fails
  on the code: the columns are added to \<open>result_df = df.copy()\<close>, which is lost when
  the call raises, and the caller's dataset is never written to.  With the recodes
  \<open>N1\<close> (answers of \<open>A\<close>) and \<open>N2\<close> (answers of the missing variable \<open>Z\<close>)
  the call fails at \<open>N2\<close> with its name attached, the schema has the question
  \<open>N1\<close>, and the dataset has no column \<open>N1\<close>.
\<close>

theorem C5_columns_remain_counterexample:
  \<open>fst (calculate_all example_env [count_recode ''N1'' ''["A"]'', count_recode ''N2'' ''["Z"]'']
          example_df example_datamap)
     = Inl (RecodeError ''N2'' (VariableNotInData ''Z''))
   \<and> get_question
        (snd (calculate_all example_env
                [count_recode ''N1'' ''["A"]'', count_recode ''N2'' ''["Z"]'']
                example_df example_datamap)) ''N1'' \<noteq> None
   \<and> \<not> has_column
        (dataset_after example_df
           (fst (calculate_all example_env
                   [count_recode ''N1'' ''["A"]'', count_recode ''N2'' ''["Z"]'']
                   example_df example_datamap))) ''N1''\<close>
  by code_simp

text \<open>
  Claim C5, amended: when \<open>calculate_all\<close> fails, it fails at some k-th recode and
  the error carries that recode's name and the cause; the recodes before it were
  computed and added in order to the working copy, and the schema is left as that prefix
  made it, with a question for each of those recodes (no rollback of the schema).  The
  working copy with the added columns is discarded: the caller is left with the dataset
  that was passed in.
\<close>

theorem C5_failure_keeps_schema_not_columns:
  assumes "calculate_all env recodes df datamap = (Inl err, datamap')"
  shows "\<exists>k<length recodes. \<exists>result_df e.
           calculate_all env (take k recodes) df datamap = (Inr result_df, datamap')
           \<and> calculate env (recodes ! k) result_df datamap' = Inl e
           \<and> err = RecodeError (recode_name (recodes ! k)) e
           \<and> (\<forall>j<k. has_column result_df (recode_name (recodes ! j))
                     \<and> get_question datamap' (recode_name (recodes ! j)) \<noteq> None)
           \<and> dataset_after df (Inl err) = df"
proof -
  from assms have "calculate_all_loop env df datamap recodes = (Inl err, datamap')"
    by (simp add: calculate_all_def)
  from calculate_all_loop_failure[OF this] obtain k result_df e where k: "k < length recodes"
    and p: "calculate_all_loop env df datamap (take k recodes) = (Inr result_df, datamap')"
    and c: "calculate env (recodes ! k) result_df datamap' = Inl e"
    and e: "err = RecodeError (r_name (base (recodes ! k))) e" by blast
  have before: "\<forall>j<k. has_column result_df (recode_name (recodes ! j))
                     \<and> get_question datamap' (recode_name (recodes ! j)) \<noteq> None"
  proof (intro allI impI)
    fix j assume j: "j < k"
    then have "recodes ! j \<in> set (take k recodes)"
      using k by (metis in_set_conv_nth length_take min.absorb2 less_imp_le nth_take)
    with calculate_all_loop_success[OF p]
    show "has_column result_df (recode_name (recodes ! j))
            \<and> get_question datamap' (recode_name (recodes ! j)) \<noteq> None" by blast
  qed
  have "calculate_all env (take k recodes) df datamap = (Inr result_df, datamap')"
    using p by (simp add: calculate_all_def)
  moreover have "dataset_after df (Inl err) = df" by (simp add: dataset_after_def)
  ultimately show ?thesis
    using k c e before unfolding recode_name_def by blast
qed

theorem C5_failure_keeps_schema_not_columns_witness:
  \<open>calculate_all example_env [count_recode ''N1'' ''["A"]'', count_recode ''N2'' ''["Z"]'']
      example_df example_datamap
     = (Inl (RecodeError ''N2'' (VariableNotInData ''Z'')),
        add_question example_datamap (recode_question (count_recode ''N1'' ''["A"]'')))
   \<and> (\<exists>k<length [count_recode ''N1'' ''["A"]'', count_recode ''N2'' ''["Z"]''].
        \<exists>result_df e.
          calculate_all example_env
            (take k [count_recode ''N1'' ''["A"]'', count_recode ''N2'' ''["Z"]''])
            example_df example_datamap
            = (Inr result_df,
               add_question example_datamap (recode_question (count_recode ''N1'' ''["A"]'')))
          \<and> RecodeError ''N2'' (VariableNotInData ''Z'')
              = RecodeError
                  (recode_name ([count_recode ''N1'' ''["A"]'', count_recode ''N2'' ''["Z"]''] ! k)) e)
   \<and> dataset_after example_df (Inl (RecodeError ''N2'' (VariableNotInData ''Z''))) = example_df\<close>
proof -
  have h: \<open>calculate_all example_env [count_recode ''N1'' ''["A"]'', count_recode ''N2'' ''["Z"]'']
      example_df example_datamap
     = (Inl (RecodeError ''N2'' (VariableNotInData ''Z'')),
        add_question example_datamap (recode_question (count_recode ''N1'' ''["A"]'')))\<close>
    by code_simp
  from C5_failure_keeps_schema_not_columns [OF h] h
  show ?thesis by blast
qed

lemma calculate_all_loop_counts:
  "calculate_all_loop env df dm rs = (Inr df', dm')
   \<Longrightarrow> distinct (map recode_name rs)
   \<Longrightarrow> \<forall>r \<in> set rs. \<not> has_column df (recode_name r)
   \<Longrightarrow> length (columns df') = length (columns df) + length rs
       \<and> (\<forall>r \<in> set rs. get_question dm' (recode_name r) = Some (recode_question r))"
proof (induction rs arbitrary: df dm)
  case Nil
  then show ?case by simp
next
  case (Cons r rs)
  show ?case
  proof (cases "calculate env r df dm")
    case (Inl e)
    then show ?thesis using Cons.prems by simp
  next
    case (Inr vals)
    let ?df1 = "set_column df (r_name (base r)) vals"
    let ?dm1 = "add_question dm (recode_question r)"
    have run: "calculate_all_loop env ?df1 ?dm1 rs = (Inr df', dm')"
      using Inr Cons.prems(1) by simp
    have d: "distinct (map recode_name rs)" and nr: "recode_name r \<notin> set (map recode_name rs)"
      using Cons.prems(2) by simp_all
    have fresh: "\<forall>x \<in> set rs. \<not> has_column ?df1 (recode_name x)"
    proof
      fix x assume x: "x \<in> set rs"
      then have "recode_name x \<in> set (map recode_name rs)" by simp
      then have "recode_name x \<noteq> recode_name r" using nr by auto
      moreover have "\<not> has_column df (recode_name x)" using Cons.prems(3) x by simp
      ultimately show "\<not> has_column ?df1 (recode_name x)"
        by (simp add: has_column_set_column recode_name_def)
    qed
    from Cons.IH[OF run d fresh] have
      len: "length (columns df') = length (columns ?df1) + length rs"
      and qs: "\<forall>x \<in> set rs. get_question dm' (recode_name x) = Some (recode_question x)"
      by simp_all
    have "\<not> has_column df (r_name (base r))"
      using Cons.prems(3) by (simp add: recode_name_def)
    then have len1: "length (columns ?df1) = Suc (length (columns df))"
      by (simp add: length_columns_set_column)
    have "get_question dm' (recode_name r) = get_question ?dm1 (recode_name r)"
      using run nr by (rule calculate_all_loop_other)
    then have q: "get_question dm' (recode_name r) = Some (recode_question r)"
      by (simp add: get_question_add_question q_name_recode_question)
    show ?thesis using len len1 qs q by simp
  qed
qed

text \<open>
  Claim C6, as the specification states it: after a successful \<open>calculate_all\<close> over
  \<open>n\<close> columns and \<open>r\<close> recodes the dataset has exactly \<open>n + r\<close> columns.  This
  fails on the code: \<open>result_df[recode.name] = recode_values\<close> replaces a column of
  that name.  The recode \<open>A\<close> counting the answers of the column \<open>A\<close> succeeds on
  the one-column dataset and returns one column, not two.
\<close>

theorem C6_column_count_counterexample:
  \<open>fst (calculate_all example_env [count_recode ''A'' ''["A"]''] example_df example_datamap)
     = Inr \<lparr>nrows = 2, columns = [(''A'', [Num 1, Num 0])]\<rparr>
   \<and> length (columns example_df) + length [count_recode ''A'' ''["A"]''] = 2\<close>
  by code_simp

text \<open>
  Claim C6, amended: after a successful \<open>calculate_all\<close> over a dataset with \<open>n\<close>
  columns and a list of \<open>r\<close> recodes whose names are pairwise distinct and are not
  names of columns of the dataset, the returned dataset has exactly \<open>n + r\<close> columns,
  and for every recode the schema holds the question of that name built from the recode,
  whose kind is single-choice for a \<open>QualiUniqueRecode\<close>, multi-choice for a
  \<open>QualiMultipleRecode\<close> or \<open>QualiMultiINIRecode\<close>, and numeric for the others.
\<close>

theorem C6_columns_and_questions_added:
  assumes "calculate_all env recodes df datamap = (Inr result_df, datamap')"
    and "distinct (map recode_name recodes)"
    and "\<forall>r \<in> set recodes. \<not> has_column df (recode_name r)"
  shows "length (columns result_df) = length (columns df) + length recodes
         \<and> (\<forall>r \<in> set recodes.
               get_question datamap' (recode_name r) = Some (recode_question r)
               \<and> q_name (recode_question r) = recode_name r
               \<and> q_qtype (recode_question r)
                   = (case r of
                        QualiUniqueRecode b codes \<Rightarrow> QUALI_UNIQUE
                      | QualiMultipleRecode b codes \<Rightarrow> QUALI_MULTI
                      | QualiMultiINIRecode b codes subtotals \<Rightarrow> QUALI_MULTI
                      | _ \<Rightarrow> NUMERIC))"
proof -
  from assms(1) have run: "calculate_all_loop env df datamap recodes = (Inr result_df, datamap')"
    by (simp add: calculate_all_def)
  have kind: "\<And>r. q_qtype (recode_question r)
                   = (case r of
                        QualiUniqueRecode b codes \<Rightarrow> QUALI_UNIQUE
                      | QualiMultipleRecode b codes \<Rightarrow> QUALI_MULTI
                      | QualiMultiINIRecode b codes subtotals \<Rightarrow> QUALI_MULTI
                      | _ \<Rightarrow> NUMERIC)"
  proof -
    fix r show "q_qtype (recode_question r)
                   = (case r of
                        QualiUniqueRecode b codes \<Rightarrow> QUALI_UNIQUE
                      | QualiMultipleRecode b codes \<Rightarrow> QUALI_MULTI
                      | QualiMultiINIRecode b codes subtotals \<Rightarrow> QUALI_MULTI
                      | _ \<Rightarrow> NUMERIC)"
      by (cases r) (simp_all add: recode_question_def)
  qed
  from calculate_all_loop_counts[OF run assms(2,3)] kind
  show ?thesis by (simp add: q_name_recode_question)
qed

theorem C6_columns_and_questions_added_witness:
  \<open>fst (calculate_all example_env
          [count_recode ''N1'' ''["A"]'', QualiUniqueRecode overlapping_recode [(1, ''one'')]]
          example_df example_datamap)
     = Inr \<lparr>nrows = 2,
            columns = [(''A'', [Num 1, Null]), (''N1'', [Num 1, Num 0]), (''R'', [Num 2, Null])]\<rparr>
   \<and> distinct (map recode_name
        [count_recode ''N1'' ''["A"]'', QualiUniqueRecode overlapping_recode [(1, ''one'')]])
   \<and> \<not> has_column example_df ''N1'' \<and> \<not> has_column example_df ''R''
   \<and> length (columns example_df) = 1
   \<and> length [(''A'', [Num 1, Null]), (''N1'', [Num 1, Num 0]), (''R'', [Num (2::rat), Null])]
       = length (columns example_df)
         + length [count_recode ''N1'' ''["A"]'', QualiUniqueRecode overlapping_recode [(1, ''one'')]]
   \<and> q_qtype (recode_question (QualiUniqueRecode overlapping_recode [(1, ''one'')])) = QUALI_UNIQUE
   \<and> q_qtype (recode_question (count_recode ''N1'' ''["A"]'')) = NUMERIC\<close>
proof -
  let ?rs = \<open>[count_recode ''N1'' ''["A"]'', QualiUniqueRecode overlapping_recode [(1, ''one'')]]\<close>
  let ?df = \<open>\<lparr>nrows = 2,
            columns = [(''A'', [Num 1, Null]), (''N1'', [Num 1, Num 0]), (''R'', [Num 2, Null])]\<rparr>\<close>
  have h1: "calculate_all example_env ?rs example_df example_datamap
              = (Inr ?df,
                 add_question
                   (add_question example_datamap (recode_question (count_recode ''N1'' ''[\"A\"]'')))
                   (recode_question (QualiUniqueRecode overlapping_recode [(1, ''one'')])))"
    by code_simp
  have h2: "distinct (map recode_name ?rs)" by code_simp
  have h3: "\<forall>r \<in> set ?rs. \<not> has_column example_df (recode_name r)" by code_simp
  have c1: "fst (calculate_all example_env ?rs example_df example_datamap) = Inr ?df"
    using h1 by simp
  have c2: "\<not> has_column example_df ''N1''" by code_simp
  have c3: "\<not> has_column example_df ''R''" by code_simp
  have c4: "length (columns example_df) = 1" by code_simp
  have c5: "length [(''A'', [Num 1, Null]), (''N1'', [Num 1, Num 0]), (''R'', [Num (2::rat), Null])]
              = length (columns example_df) + length ?rs" by code_simp
  have c6: "q_qtype (recode_question (QualiUniqueRecode overlapping_recode [(1, ''one'')]))
              = QUALI_UNIQUE" by code_simp
  have c7: "q_qtype (recode_question (count_recode ''N1'' ''[\"A\"]'')) = NUMERIC" by code_simp
  from C6_columns_and_questions_added [OF h1 h2 h3] c1 h2 c2 c3 c4 c5 c6 c7
  show ?thesis by blast
qed

subsection \<open>Significance markers\<close>

lemma gets_letter_higher:
  assumes "gets_letter significant alpha c_i n_i c_j n_j"
  shows "\<exists>p_i p_j. proportion c_i n_i = Some p_i \<and> proportion c_j n_j = Some p_j \<and> p_j < p_i"
  using assms unfolding gets_letter_def
  by (cases c_i; cases c_j; cases "proportion c_i n_i"; cases "proportion c_j n_j")
     (simp_all add: Let_def)

lemma gets_letter_asym:
  "gets_letter significant alpha c_i n_i c_j n_j \<Longrightarrow> \<not> gets_letter significant alpha c_j n_j c_i n_i"
proof
  assume a: "gets_letter significant alpha c_i n_i c_j n_j"
    and b: "gets_letter significant alpha c_j n_j c_i n_i"
  from gets_letter_higher[OF a] obtain p_i p_j where
    "proportion c_i n_i = Some p_i" "proportion c_j n_j = Some p_j" "p_j < p_i" by blast
  moreover from gets_letter_higher[OF b] obtain q_j q_i where
    "proportion c_j n_j = Some q_j" "proportion c_i n_i = Some q_i" "q_i < q_j" by blast
  ultimately show False by simp
qed

lemma letter_in_sig_letters:
  "letter j \<in> set (sig_letters significant alpha col_totals row i)
   \<longleftrightarrow> j < length col_totals \<and> j \<noteq> i
       \<and> gets_letter significant alpha (row ! i) (col_totals ! i) (row ! j) (col_totals ! j)"
  by (auto simp: sig_letters_def letter_def)

lemma column_z_tests_cell:
  assumes "column_z_tests significant crosstab alpha = Inr markers"
    and "r < length markers" and "i < length (markers ! r)"
  shows "markers ! r ! i = None
         \<or> (\<exists>col_totals row. markers ! r ! i = Some (sig_letters significant alpha col_totals row i)
              \<and> (\<forall>k < length (markers ! r).
                    markers ! r ! k = Some (sig_letters significant alpha col_totals row k)))"
proof -
  let ?data = "drop_total crosstab"
  let ?n = "length (ct_columns ?data)"
  show ?thesis
  proof (cases "?n < 2")
    case True
    then have m: "markers = map (\<lambda>row. map (\<lambda>c. None) (ct_columns ?data)) (ct_values ?data)"
      using assms(1) unfolding column_z_tests_def Let_def by simp
    then have "r < length (ct_values ?data)" using assms(2) by simp
    then have "markers ! r = map (\<lambda>c. None) (ct_columns ?data)" using m by simp
    then show ?thesis using assms(3) by simp
  next
    case False
    let ?tot = "map (col_total ?data) [0..<?n]"
    have m: "markers = map (\<lambda>row. map (\<lambda>i. Some (sig_letters significant alpha ?tot row i)) [0..<?n])
                         (ct_values ?data)"
      using assms(1) False unfolding column_z_tests_def Let_def by (simp split: if_splits)
    then have r: "r < length (ct_values ?data)" using assms(2) by simp
    let ?row = "ct_values ?data ! r"
    have mr: "markers ! r = map (\<lambda>i. Some (sig_letters significant alpha ?tot ?row i)) [0..<?n]"
      using m r by simp
    then have len: "length (markers ! r) = ?n" by simp
    have "\<forall>k < length (markers ! r).
            markers ! r ! k = Some (sig_letters significant alpha ?tot ?row k)"
      using mr len by simp
    then show ?thesis using assms(3) by blast
  qed
qed

text \<open>
  Claim C8: in the marker matrix of the pairwise column test, a cell of a column never
  carries that column's own letter, and for every row and every two distinct data
  columns \<open>i\<close> and \<open>j\<close>, the cell of \<open>i\<close> carrying the letter of \<open>j\<close> and the cell
  of \<open>j\<close> carrying the letter of \<open>i\<close> never occur together.  This holds whatever the
  decision \<open>significant\<close> of the normal test is.
\<close>

theorem C8_markers_exclude_own_letter_and_are_one_sided:
  assumes "column_z_tests significant crosstab alpha = Inr markers"
    and "r < length markers"
    and "i < length (markers ! r)" and "j < length (markers ! r)" and "i \<noteq> j"
  shows "\<not> marked markers r i (letter i)
         \<and> \<not> (marked markers r i (letter j) \<and> marked markers r j (letter i))"
proof -
  have cell: "markers ! r ! i = None
         \<or> (\<exists>col_totals row. markers ! r ! i = Some (sig_letters significant alpha col_totals row i)
              \<and> (\<forall>k < length (markers ! r).
                    markers ! r ! k = Some (sig_letters significant alpha col_totals row k)))"
    using assms(1,2,3) by (rule column_z_tests_cell)
  show ?thesis
  proof (cases "markers ! r ! i")
    case None
    then show ?thesis by (simp add: marked_def)
  next
    case (Some s)
    with cell obtain col_totals row where
      mi: "markers ! r ! i = Some (sig_letters significant alpha col_totals row i)"
      and all: "\<forall>k < length (markers ! r).
            markers ! r ! k = Some (sig_letters significant alpha col_totals row k)"
      by auto
    have mj: "markers ! r ! j = Some (sig_letters significant alpha col_totals row j)"
      using all assms(4) by simp
    have own: "\<not> marked markers r i (letter i)"
      using mi by (simp add: marked_def letter_in_sig_letters)
    have one_sided: "\<not> (marked markers r i (letter j) \<and> marked markers r j (letter i))"
    proof
      assume both: "marked markers r i (letter j) \<and> marked markers r j (letter i)"
      then have "gets_letter significant alpha (row ! i) (col_totals ! i) (row ! j) (col_totals ! j)"
        using mi by (simp add: marked_def letter_in_sig_letters)
      moreover from both have
        "gets_letter significant alpha (row ! j) (col_totals ! j) (row ! i) (col_totals ! i)"
        using mj by (simp add: marked_def letter_in_sig_letters)
      ultimately show False using gets_letter_asym by blast
    qed
    show ?thesis using own one_sided by simp
  qed
qed

theorem C8_markers_exclude_own_letter_and_are_one_sided_witness:
  "column_z_tests example_significant example_crosstab (5 / 100)
     = Inr [[Some [66], Some []], [Some [], Some [65]]]
   \<and> marked [[Some [66], Some []], [Some [], Some [65]]] 0 0 (letter 1)
   \<and> \<not> marked [[Some [66], Some []], [Some [], Some [65]]] 0 0 (letter 0)
   \<and> \<not> (marked [[Some [66], Some []], [Some [], Some [65]]] 0 0 (letter 1)
         \<and> marked [[Some [66], Some []], [Some [], Some [65]]] 0 1 (letter 0))"
proof -
  let ?m = "[[Some [66], Some []], [Some [], Some [65::nat]]]"
  have h1: "column_z_tests example_significant example_crosstab (5 / 100) = Inr ?m"
    by code_simp
  have h2: "(0::nat) < length ?m" by simp
  have h3: "(0::nat) < length (?m ! 0)" by simp
  have h4: "(1::nat) < length (?m ! 0)" by simp
  have h5: "(0::nat) \<noteq> 1" by simp
  have c: "marked ?m 0 0 (letter 1)" by code_simp
  from C8_markers_exclude_own_letter_and_are_one_sided [OF h1 h2 h3 h4 h5] h1 c
  show ?thesis by simp
qed

subsection \<open>Percentages\<close>










end
